theory Spec2Isabelle
  imports Main
begin

section \<open>Python values\<close>

text \<open>
  The two programs (\<^verbatim>\<open>src/server.py\<close> and \<^verbatim>\<open>src/client.py\<close>) exchange JSON documents
  and work on the values \<^verbatim>\<open>json.loads\<close> returns: \<^verbatim>\<open>None\<close>, booleans, unbounded integers,
  strings, lists and dictionaries with string keys. A dictionary is an association list in
  insertion order with distinct keys. Strings are lists of characters read as the code
  points 0..255. JSON numbers with a fraction or an exponent (Python floats) are outside
  the model.
\<close>

datatype json =
    JNull
  | JBool bool
  | JInt int
  | JStr string
  | JList "json list"
  | JObj "(string \<times> json) list"

datatype error =
    KeyError | TypeError | ValueError | IndexError | AttributeError
  | ZeroDivisionError | OverflowError | EOFError | OSError | DatabaseError

type_synonym 'a dict = "(string \<times> 'a) list"

text \<open>\<^verbatim>\<open>d[k] = v\<close> on a dictionary: an existing key keeps its place.\<close>

fun setitem :: "'a dict \<Rightarrow> string \<Rightarrow> 'a \<Rightarrow> 'a dict" where
  "setitem [] k v = [(k, v)]"
| "setitem ((k', v') # d) k v = (if k' = k then (k, v) # d else (k', v') # setitem d k v)"

text \<open>\<^verbatim>\<open>x[k]\<close> with a string key \<open>k\<close>: \<^verbatim>\<open>KeyError\<close> on a dictionary without the key,
  \<^verbatim>\<open>TypeError\<close> on every other value (a list or a string takes integer indices only).\<close>

fun getitem :: "json \<Rightarrow> string \<Rightarrow> error + json" where
  "getitem (JObj d) k = (case map_of d k of None \<Rightarrow> Inl KeyError | Some v \<Rightarrow> Inr v)"
| "getitem _ k = Inl TypeError"

subsection \<open>\<^verbatim>\<open>str\<close> and \<^verbatim>\<open>repr\<close>\<close>

definition digit_char :: "nat \<Rightarrow> char" where
  "digit_char d = ''0123456789'' ! d"

fun str_nat :: "nat \<Rightarrow> string" where
  "str_nat n = (if n < 10 then [digit_char n] else str_nat (n div 10) @ [digit_char (n mod 10)])"

declare str_nat.simps [simp del]

definition str_int :: "int \<Rightarrow> string" where
  "str_int i = (if i < 0 then CHR ''-'' # str_nat (nat (- i)) else str_nat (nat i))"

definition hex_char :: "nat \<Rightarrow> char" where
  "hex_char d = ''0123456789abcdef'' ! d"

definition printable :: "char \<Rightarrow> bool" where
  "printable c = (let n = (of_char c :: nat) in
     \<not> (n < 32 \<or> n = 127 \<or> (128 \<le> n \<and> n \<le> 160) \<or> n = 173))"

definition repr_char :: "char \<Rightarrow> char \<Rightarrow> string" where
  "repr_char q c =
     (if c = q \<or> c = CHR 0x5C then [CHR 0x5C, c]
      else if c = CHR 0x09 then [CHR 0x5C, CHR ''t'']
      else if c = CHR 0x0A then [CHR 0x5C, CHR ''n'']
      else if c = CHR 0x0D then [CHR 0x5C, CHR ''r'']
      else if \<not> printable c
        then [CHR 0x5C, CHR ''x'', hex_char (of_char c div 16), hex_char (of_char c mod 16)]
      else [c])"

definition repr_str :: "string \<Rightarrow> string" where
  "repr_str s =
     (let q = (if CHR 0x27 \<in> set s \<and> CHR 0x22 \<notin> set s then CHR 0x22 else CHR 0x27)
      in q # concat (map (repr_char q) s) @ [q])"

fun join :: "string \<Rightarrow> string list \<Rightarrow> string" where
  "join sep [] = []"
| "join sep [x] = x"
| "join sep (x # y # xs) = x @ sep @ join sep (y # xs)"

fun py_repr :: "json \<Rightarrow> string" where
  "py_repr JNull = ''None''"
| "py_repr (JBool b) = (if b then ''True'' else ''False'')"
| "py_repr (JInt i) = str_int i"
| "py_repr (JStr s) = repr_str s"
| "py_repr (JList xs) = ''['' @ join '', '' (map py_repr xs) @ '']''"
| "py_repr (JObj d) =
     ''{'' @ join '', '' (map (\<lambda>kv. repr_str (fst kv) @ '': '' @ py_repr (snd kv)) d) @ ''}''"

text \<open>\<^verbatim>\<open>str(x)\<close>, also what an f-string and \<^verbatim>\<open>%s\<close> insert: a string as it is, every other
  value by its \<^verbatim>\<open>repr\<close>.\<close>

fun py_str :: "json \<Rightarrow> string" where
  "py_str (JStr s) = s"
| "py_str v = py_repr v"

subsection \<open>\<^verbatim>\<open>int\<close>\<close>

text \<open>The white space \<^verbatim>\<open>int\<close> skips at both ends of a string: the ASCII characters tab to
  carriage return and space, and the two spaces above 127 (next line, no-break space).
  The separators 28..31, which \<^verbatim>\<open>str.strip\<close> removes, are no white space to \<^verbatim>\<open>int\<close>.\<close>

definition is_space :: "char \<Rightarrow> bool" where
  "is_space c = (let n = (of_char c :: nat) in
     (9 \<le> n \<and> n \<le> 13) \<or> n = 32 \<or> n = 133 \<or> n = 160)"

definition is_digit :: "char \<Rightarrow> bool" where
  "is_digit c = (48 \<le> (of_char c :: nat) \<and> (of_char c :: nat) \<le> 57)"

definition digit_val :: "char \<Rightarrow> nat" where
  "digit_val c = of_char c - 48"

definition strip :: "string \<Rightarrow> string" where
  "strip s = rev (dropWhile is_space (rev (dropWhile is_space s)))"

text \<open>Decimal digits, where single underscores may stand between two digits.\<close>

fun parse_digits :: "nat \<Rightarrow> string \<Rightarrow> nat option" where
  "parse_digits acc [] = Some acc"
| "parse_digits acc [c] = (if is_digit c then Some (acc * 10 + digit_val c) else None)"
| "parse_digits acc (c # d # cs) =
     (if is_digit c then parse_digits (acc * 10 + digit_val c) (d # cs)
      else if c = CHR ''_'' \<and> is_digit d then parse_digits acc (d # cs)
      else None)"

definition max_str_digits :: nat where
  "max_str_digits = 4300"

definition parse_number :: "string \<Rightarrow> nat option" where
  "parse_number s =
     (case s of
        [] \<Rightarrow> None
      | c # _ \<Rightarrow>
          if \<not> is_digit c then None
          else if max_str_digits < length (filter is_digit s) then None
          else parse_digits 0 s)"

text \<open>\<^verbatim>\<open>int(s)\<close> on a string: white space around, an optional sign, decimal digits;
  \<^verbatim>\<open>ValueError\<close> otherwise, and beyond the interpreter's limit of 4300 digits.\<close>

definition int_of_str :: "string \<Rightarrow> error + int" where
  "int_of_str s =
     (case strip s of
        [] \<Rightarrow> Inl ValueError
      | c # cs \<Rightarrow>
          if c = CHR ''-'' then
            (case parse_number cs of None \<Rightarrow> Inl ValueError | Some n \<Rightarrow> Inr (- int n))
          else if c = CHR ''+'' then
            (case parse_number cs of None \<Rightarrow> Inl ValueError | Some n \<Rightarrow> Inr (int n))
          else
            (case parse_number (c # cs) of None \<Rightarrow> Inl ValueError | Some n \<Rightarrow> Inr (int n)))"

text \<open>\<^verbatim>\<open>int(x)\<close> on a value: an integer as it is, a boolean as 0 or 1, a string parsed,
  \<^verbatim>\<open>TypeError\<close> on \<^verbatim>\<open>None\<close>, lists and dictionaries.\<close>

fun py_int :: "json \<Rightarrow> error + int" where
  "py_int (JInt i) = Inr i"
| "py_int (JBool b) = Inr (if b then 1 else 0)"
| "py_int (JStr s) = int_of_str s"
| "py_int _ = Inl TypeError"

text \<open>A literal pattern \<^verbatim>\<open>case k:\<close> of \<^verbatim>\<open>match\<close> compares with \<^verbatim>\<open>==\<close>: an integer equals
  \<open>k\<close> by value, \<^verbatim>\<open>True\<close> equals 1 and \<^verbatim>\<open>False\<close> equals 0, and no string, list,
  dictionary or \<^verbatim>\<open>None\<close> equals an integer.\<close>

fun eq_int :: "json \<Rightarrow> int \<Rightarrow> bool" where
  "eq_int (JInt i) k = (i = k)"
| "eq_int (JBool b) k = ((if b then 1 else 0) = k)"
| "eq_int _ k = False"

text \<open>Sequencing of steps that may raise: the first exception ends the sequence.\<close>

definition andthen :: "error + 'a \<Rightarrow> ('a \<Rightarrow> error + 'b) \<Rightarrow> error + 'b" where
  "andthen m f = (case m of Inl e \<Rightarrow> Inl e | Inr x \<Rightarrow> f x)"

section \<open>The environment: wire, store, Paillier numbers\<close>

subsection \<open>Wire\<close>

text \<open>
  A frame is read by \<^verbatim>\<open>recv(4096)\<close>, \<^verbatim>\<open>decode('utf-8')\<close> and \<^verbatim>\<open>loads\<close>. The model takes
  the outcome of the three calls as the input of a round: the transport or the decoding
  raises, the text is no JSON document, or the document \<^verbatim>\<open>loads\<close> returns. A frame is
  written by \<^verbatim>\<open>send(dumps(d).encode('utf-8'))\<close>; the model records the document and
  whether the call returned or raised. Of the client's console it records what
  \<^verbatim>\<open>print\<close> writes and the messages logged at error level; the server's log is not
  recorded.
\<close>

datatype incoming = RecvRaises | NotJson | Doc json

datatype event =
    Connect
  | Sent json
  | SendRaised json
  | Print string
  | LogError string
  | Close

subsection \<open>Store\<close>

text \<open>
  The relational store is reached through \<^verbatim>\<open>mysql.connector\<close>. Its table
  \<^verbatim>\<open>Employees (id INT AUTO_INCREMENT PRIMARY KEY, phe_salary TEXT, ope_salary TEXT)\<close> is a
  list of rows in insertion order. A statement raises when the store is down (a flag of
  the round). Startup is taken to reach the store.
\<close>

record EmployeeRecord =
  emp_id :: int
  phe_salary :: string
  ope_salary :: string

record store =
  tables :: "string list"
  employees :: "EmployeeRecord list"
  next_id :: int

text \<open>\<^verbatim>\<open>CREATE TABLE IF NOT EXISTS Employees\<close>; the \<^verbatim>\<open>TRUNCATE Employes\<close> that follows in
  \<^verbatim>\<open>_connect_to_db\<close> names another table, so the rows of \<^verbatim>\<open>Employees\<close> stay.\<close>

definition connect_to_db :: "store \<Rightarrow> store" where
  "connect_to_db db =
     (if ''Employees'' \<in> set (tables db) then db
      else db\<lparr>tables := tables db @ [''Employees'']\<rparr>)"

text \<open>\<^verbatim>\<open>SHOW TABLES\<close> and \<^verbatim>\<open>fetchall\<close>: one 1-tuple per table, a list of lists once
  serialised. (The order in which the store lists the names is not modelled.)\<close>

definition show_tables :: "store \<Rightarrow> json" where
  "show_tables db = JList (map (\<lambda>t. JList [JStr t]) (tables db))"

text \<open>\<^verbatim>\<open>INSERT INTO Employees (phe_salary, ope_salary) VALUES (%s, %s)\<close>: the store assigns
  the next id.\<close>

definition insert_employee :: "store \<Rightarrow> string \<Rightarrow> string \<Rightarrow> store" where
  "insert_employee db phe ope =
     db\<lparr>employees := employees db @ [\<lparr>emp_id = next_id db, phe_salary = phe, ope_salary = ope\<rparr>],
        next_id := next_id db + 1\<rparr>"

text \<open>
  \<^verbatim>\<open>ORDER BY ope_salary\<close> sorts a \<^verbatim>\<open>TEXT\<close> column: the values are compared as strings
  under the connection's collation \<^verbatim>\<open>utf8mb4_general_ci\<close>, character by character, without
  regard to the case of the letters a..z, the shorter string padded with spaces. (The
  collation also folds accented letters, which is left out: the weight of a code point
  above 127 is the code point.)
\<close>

definition weight :: "char \<Rightarrow> nat" where
  "weight c = (let n = (of_char c :: nat) in if 97 \<le> n \<and> n \<le> 122 then n - 32 else n)"

fun text_less :: "string \<Rightarrow> string \<Rightarrow> bool" where
  "text_less [] [] = False"
| "text_less [] (y # ys) = (32 < weight y \<or> (weight y = 32 \<and> text_less [] ys))"
| "text_less (x # xs) [] = (weight x < 32 \<or> (weight x = 32 \<and> text_less xs []))"
| "text_less (x # xs) (y # ys) = (weight x < weight y \<or> (weight x = weight y \<and> text_less xs ys))"

text \<open>\<^verbatim>\<open>SELECT id FROM Employees WHERE id IN (a, b) ORDER BY ope_salary DESC LIMIT 1\<close> and
  \<^verbatim>\<open>fetchone\<close>: the matching row that sorts first, \<^verbatim>\<open>None\<close> when no row matches. Of rows
  that compare equal the earlier one is kept.\<close>

fun top_by_ope :: "EmployeeRecord \<Rightarrow> EmployeeRecord list \<Rightarrow> EmployeeRecord" where
  "top_by_ope best [] = best"
| "top_by_ope best (r # rs) =
     top_by_ope (if text_less (ope_salary best) (ope_salary r) then r else best) rs"

definition select_top_id :: "store \<Rightarrow> int \<Rightarrow> int \<Rightarrow> int option" where
  "select_top_id db a b =
     (case filter (\<lambda>r. emp_id r = a \<or> emp_id r = b) (employees db) of
        [] \<Rightarrow> None
      | r # rs \<Rightarrow> Some (emp_id (top_by_ope r rs)))"

text \<open>\<^verbatim>\<open>SELECT phe_salary FROM Employees WHERE id=a OR id=b\<close> and \<^verbatim>\<open>fetchall\<close>.\<close>

definition select_phe :: "store \<Rightarrow> int \<Rightarrow> int \<Rightarrow> string list" where
  "select_phe db a b = map phe_salary (filter (\<lambda>r. emp_id r = a \<or> emp_id r = b) (employees db))"

subsection \<open>Paillier numbers on the server\<close>

text \<open>
  The server wraps two stored integers as \<^verbatim>\<open>EncryptedNumber(key, c)\<close> of the library
  \<^verbatim>\<open>phe\<close>, adds them and reads \<^verbatim>\<open>ciphertext()\<close> of the sum. For a public key of modulus
  \<open>n\<close> the library multiplies the two integers modulo \<open>n\<^sup>2\<close> and, as the sum is not yet
  obfuscated, multiplies by \<open>r\<^sup>n\<close> for a random \<open>r\<close> with \<open>1 \<le> r < n\<close>. The random draw
  is an input of the round (\<open>seed\<close>). Each step raises as the library does: without a
  key object, on a zero modulus, on an empty range of \<open>r\<close>.
\<close>

definition raw_add :: "int \<Rightarrow> int \<Rightarrow> int \<Rightarrow> error + int" where
  "raw_add n a b = (if n * n = 0 then Inl ZeroDivisionError else Inr (a * b mod (n * n)))"

definition get_random_lt_n :: "int \<Rightarrow> nat \<Rightarrow> error + int" where
  "get_random_lt_n n seed = (if n \<le> 1 then Inl ValueError else Inr (1 + int seed mod (n - 1)))"

definition obfuscate :: "int \<Rightarrow> int \<Rightarrow> nat \<Rightarrow> error + int" where
  "obfuscate n c seed =
     andthen (get_random_lt_n n seed) (\<lambda>r. Inr (c * (r ^ nat n mod (n * n)) mod (n * n)))"

definition encrypted_sum_ciphertext :: "int option \<Rightarrow> int \<Rightarrow> int \<Rightarrow> nat \<Rightarrow> error + int" where
  "encrypted_sum_ciphertext key a b seed =
     (case key of
        None \<Rightarrow> Inl TypeError
      | Some n \<Rightarrow> andthen (raw_add n a b) (\<lambda>c. obfuscate n c seed))"

section \<open>The server\<close>

subsection \<open>Class \<^verbatim>\<open>Key\<close>\<close>

text \<open>The rebuilt \<^verbatim>\<open>PaillierPublicKey(n=...)\<close> is its modulus; \<^verbatim>\<open>None\<close> is the default of
  the field.\<close>

record Key =
  phe_public_key :: "int option"

text \<open>Both methods log an exception and return: the field keeps its value.\<close>

definition rebuild_pailler_public_key :: "Key \<Rightarrow> json \<Rightarrow> Key" where
  "rebuild_pailler_public_key self received_key =
     (case andthen (getitem received_key ''n'') py_int of
        Inl e \<Rightarrow> self
      | Inr n \<Rightarrow> self\<lparr>Key.phe_public_key := Some n\<rparr>)"

definition read_paillier_public_key :: "Key \<Rightarrow> incoming \<Rightarrow> Key" where
  "read_paillier_public_key self received =
     (case received of
        Doc received_key \<Rightarrow> rebuild_pailler_public_key self received_key
      | _ \<Rightarrow> self)"

subsection \<open>Class \<^verbatim>\<open>Instruction\<close>\<close>

text \<open>Both programs declare the class with the same three fields.\<close>

record Instruction =
  instruction :: "int option"
  instruction_data :: json
  result_data :: "json dict"

definition new_Instruction :: Instruction where
  "new_Instruction = \<lparr>instruction = None, instruction_data = JObj [], result_data = []\<rparr>"

definition set_result :: "Instruction \<Rightarrow> string \<Rightarrow> json \<Rightarrow> Instruction" where
  "set_result self k v = self\<lparr>result_data := setitem (result_data self) k v\<rparr>"

definition server_read_instruction :: "Instruction \<Rightarrow> incoming \<Rightarrow> bool \<times> Instruction" where
  "server_read_instruction self received =
     (case received of
        Doc d \<Rightarrow> (True, self\<lparr>instruction_data := d\<rparr>)
      | _ \<Rightarrow> (False, set_result (self\<lparr>instruction := None\<rparr>) ''result'' (JStr ''1'')))"

definition server_quit :: "Instruction \<Rightarrow> Instruction" where
  "server_quit self = set_result (set_result self ''result'' (JStr ''0'')) ''data'' (JStr ''quit'')"

definition server_get_table :: "Instruction \<Rightarrow> bool \<Rightarrow> store \<Rightarrow> error + Instruction" where
  "server_get_table self up db =
     (if \<not> up then Inl DatabaseError
      else Inr (set_result (set_result self ''result'' (JStr ''0'')) ''data'' (show_tables db)))"

definition server_add_employee ::
  "Instruction \<Rightarrow> bool \<Rightarrow> store \<Rightarrow> error + Instruction \<times> store" where
  "server_add_employee self up db =
     andthen (getitem (instruction_data self) ''data'') (\<lambda>data.
     andthen (getitem data ''paillier_salary'') (\<lambda>paillier_salary.
     andthen (getitem data ''ope_salary'') (\<lambda>ope_salary.
       if \<not> up then Inl DatabaseError
       else Inr (set_result (set_result self ''result'' (JStr ''0'')) ''data'' (JStr ''OK''),
                 insert_employee db (py_str paillier_salary) (py_str ope_salary)))))"

definition server_compare_employees :: "Instruction \<Rightarrow> bool \<Rightarrow> store \<Rightarrow> error + Instruction" where
  "server_compare_employees self up db =
     andthen (getitem (instruction_data self) ''data'') (\<lambda>data.
     andthen (andthen (getitem data ''id_1'') py_int) (\<lambda>id_1.
     andthen (andthen (getitem data ''id_2'') py_int) (\<lambda>id_2.
       if \<not> up then Inl DatabaseError
       else (case select_top_id db id_1 id_2 of
               None \<Rightarrow> Inl TypeError
             | Some winner \<Rightarrow>
                 Inr (set_result (set_result self ''result'' (JStr ''0'')) ''data''
                        (JStr (''Id '' @ str_int winner @ '' has a higher salary'')))))))"

definition server_get_salaries_sum ::
  "Instruction \<Rightarrow> bool \<Rightarrow> store \<Rightarrow> Key \<Rightarrow> nat \<Rightarrow> error + Instruction" where
  "server_get_salaries_sum self up db key seed =
     andthen (getitem (instruction_data self) ''data'') (\<lambda>data.
     andthen (andthen (getitem data ''id_1'') py_int) (\<lambda>id_1.
     andthen (andthen (getitem data ''id_2'') py_int) (\<lambda>id_2.
       if \<not> up then Inl DatabaseError
       else (case select_phe db id_1 id_2 of
               [] \<Rightarrow> Inl IndexError
             | first # rest \<Rightarrow>
                 andthen (int_of_str first) (\<lambda>first_salary.
                   (case rest of
                      [] \<Rightarrow> Inl IndexError
                    | second # _ \<Rightarrow>
                        andthen (int_of_str second) (\<lambda>second_salary.
                        andthen (encrypted_sum_ciphertext (Key.phe_public_key key)
                                   first_salary second_salary seed) (\<lambda>c.
                          Inr (set_result (set_result self ''result'' (JStr ''0'')) ''data''
                                 (JInt c))))))))))"

definition wrong_instruction_value :: "Instruction \<Rightarrow> Instruction" where
  "wrong_instruction_value self =
     set_result (set_result self ''result'' (JStr ''21'')) ''data'' (JStr ''wrong instruction value'')"

text \<open>The body of the \<^verbatim>\<open>try\<close> of \<^verbatim>\<open>execute_instruction\<close>: the coercion of the code, then
  the \<^verbatim>\<open>match\<close>.\<close>

definition server_dispatch ::
  "Instruction \<Rightarrow> bool \<Rightarrow> store \<Rightarrow> Key \<Rightarrow> nat \<Rightarrow> error + Instruction \<times> store" where
  "server_dispatch self up db key seed =
     andthen (andthen (getitem (instruction_data self) ''instruction'') py_int) (\<lambda>code.
       let self' = self\<lparr>instruction := Some code\<rparr> in
       if code = 0 then Inr (server_quit self', db)
       else if code = 1 then andthen (server_get_table self' up db) (\<lambda>s. Inr (s, db))
       else if code = 2 then server_add_employee self' up db
       else if code = 3 then andthen (server_compare_employees self' up db) (\<lambda>s. Inr (s, db))
       else if code = 4 then
         andthen (server_get_salaries_sum self' up db key seed) (\<lambda>s. Inr (s, db))
       else Inr (wrong_instruction_value self', db))"

text \<open>The bare \<^verbatim>\<open>except\<close> catches whatever the body raises. What the body assigned before
  it raised is the field \<^verbatim>\<open>instruction\<close> and the key \<^verbatim>\<open>'result'\<close>, and the handler assigns
  both again.\<close>

definition server_execute_instruction ::
  "Instruction \<Rightarrow> bool \<Rightarrow> store \<Rightarrow> Key \<Rightarrow> nat \<Rightarrow> bool \<times> Instruction \<times> store" where
  "server_execute_instruction self up db key seed =
     (case server_dispatch self up db key seed of
        Inl e \<Rightarrow> (False, set_result (self\<lparr>instruction := None\<rparr>) ''result'' (JStr ''2''), db)
      | Inr (self', db') \<Rightarrow> (True, self', db'))"

text \<open>\<^verbatim>\<open>send_result\<close>: when the first \<^verbatim>\<open>send\<close> raises, the handler sends a result of code
  3; an exception of that second \<^verbatim>\<open>send\<close> leaves the method. The \<^verbatim>\<open>finally\<close> clause
  empties \<^verbatim>\<open>result_data\<close> on every path.\<close>

definition send_result ::
  "Instruction \<Rightarrow> bool \<Rightarrow> bool \<Rightarrow> event list \<times> Instruction \<times> (error + bool)" where
  "send_result self ok retry_ok =
     (if ok then ([Sent (JObj (result_data self))], self\<lparr>result_data := []\<rparr>, Inr True)
      else
        let self' = self\<lparr>instruction := None, result_data := setitem [] ''result'' (JStr ''3'')\<rparr>
        in if retry_ok
           then ([SendRaised (JObj (result_data self)), Sent (JObj (result_data self'))],
                 self'\<lparr>result_data := []\<rparr>, Inr False)
           else ([SendRaised (JObj (result_data self)), SendRaised (JObj (result_data self'))],
                 self'\<lparr>result_data := []\<rparr>, Inl OSError))"

subsection \<open>The dispatch loop of \<^verbatim>\<open>app\<close>\<close>

text \<open>
  One element of the input list is what one iteration meets: the frame read, whether the
  store answers, the random draw, whether \<^verbatim>\<open>send\<close> and the retry return. The loop ends
  when the field \<^verbatim>\<open>instruction\<close> is 0 (\<open>Finished\<close>) or when an exception reaches the
  \<^verbatim>\<open>except\<close> around the loop (\<open>Unwound\<close>); with no input left it blocks in \<^verbatim>\<open>recv\<close>
  (\<open>Blocked\<close>).
\<close>

record server_round =
  frame :: incoming
  store_up :: bool
  seed :: nat
  send_ok :: bool
  retry_ok :: bool

datatype status = Finished | Unwound error | Blocked

text \<open>The body of the \<^verbatim>\<open>while\<close>: what it wrote, whether it raised, the state it leaves.\<close>

definition server_iteration ::
  "Key \<Rightarrow> Instruction \<Rightarrow> store \<Rightarrow> server_round
     \<Rightarrow> event list \<times> (error + bool) \<times> Instruction \<times> store" where
  "server_iteration key self db rd =
     (case server_read_instruction self (frame rd) of
        (False, self1) \<Rightarrow>
          (case send_result self1 (send_ok rd) (retry_ok rd) of
             (evs, self2, res) \<Rightarrow> (evs, res, self2, db))
      | (True, self1) \<Rightarrow>
          (case server_execute_instruction self1 (store_up rd) db key (seed rd) of
             (executed, self2, db2) \<Rightarrow>
               (case send_result self2 (send_ok rd) (retry_ok rd) of
                  (evs, self3, res) \<Rightarrow> (evs, res, self3, db2))))"

fun server_loop ::
  "Key \<Rightarrow> Instruction \<Rightarrow> store \<Rightarrow> server_round list \<Rightarrow> event list \<times> status \<times> Instruction \<times> store"
where
  "server_loop key self db [] =
     ([], if instruction self = Some 0 then Finished else Blocked, self, db)"
| "server_loop key self db (rd # rds) =
     (if instruction self = Some 0 then ([], Finished, self, db)
      else
        (case server_iteration key self db rd of
           (evs, Inl e, self', db') \<Rightarrow> (evs, Unwound e, self', db')
         | (evs, Inr sent, self', db') \<Rightarrow>
             (case server_loop key self' db' rds of (evs', rest) \<Rightarrow> (evs @ evs', rest))))"

declare server_loop.simps [simp del]

text \<open>\<^verbatim>\<open>app\<close>, from the accepted connection on: the key exchange, the store, the loop.\<close>

definition server_app ::
  "incoming \<Rightarrow> store \<Rightarrow> server_round list \<Rightarrow> event list \<times> status \<times> Instruction \<times> store" where
  "server_app announcement db rounds =
     (let key = read_paillier_public_key \<lparr>Key.phe_public_key = None\<rparr> announcement
      in server_loop key new_Instruction (connect_to_db db) rounds)"

section \<open>The client\<close>

subsection \<open>Keys\<close>

text \<open>
  The Paillier key pair of \<^verbatim>\<open>phe\<close> is the modulus \<open>n = p * q\<close> and the pair of its
  primes. \<^verbatim>\<open>encrypt(v).ciphertext()\<close> rejects \<open>v\<close> beyond \<open>n div 3 - 1\<close> in absolute
  value, encodes \<open>v\<close> modulo \<open>n\<close>, forms \<open>n * v + 1\<close> modulo \<open>n\<^sup>2\<close> and obfuscates it
  (for encodings near \<open>n\<close> the library reaches the same number through a modular
  inverse). \<^verbatim>\<open>decrypt\<close> recovers the encoding modulo each prime, combines the two by the
  Chinese remainder theorem and decodes the upper third of the range as negative.
  The cipher of \<^verbatim>\<open>pyope\<close> is keyed by a pseudo-random function; the model takes the
  \<^verbatim>\<open>encrypt\<close> method of the \<^verbatim>\<open>OPE\<close> object as it is given.
\<close>

definition paillier_encrypt :: "int \<Rightarrow> int \<Rightarrow> nat \<Rightarrow> error + int" where
  "paillier_encrypt n v draw =
     (if n div 3 - 1 < \<bar>v\<bar> then Inl ValueError
      else if n = 0 then Inl ZeroDivisionError
      else obfuscate n ((n * (v mod n) + 1) mod (n * n)) draw)"

definition invert :: "int \<Rightarrow> int \<Rightarrow> error + int" where
  "invert a m =
     (case find (\<lambda>x. a * x mod m = 1) (map int [0..<nat m]) of
        None \<Rightarrow> Inl ZeroDivisionError
      | Some x \<Rightarrow> Inr x)"

definition l_function :: "int \<Rightarrow> int \<Rightarrow> int" where
  "l_function x p = (x - 1) div p"

definition h_function :: "int \<Rightarrow> int \<Rightarrow> error + int" where
  "h_function n x = invert (l_function ((n + 1) ^ nat (x - 1) mod (x * x)) x) x"

definition raw_decrypt :: "int \<times> int \<Rightarrow> int \<Rightarrow> int \<Rightarrow> error + int" where
  "raw_decrypt pq n c =
     (case pq of (p, q) \<Rightarrow>
        andthen (h_function n p) (\<lambda>hp.
        andthen (h_function n q) (\<lambda>hq.
        andthen (invert p q) (\<lambda>p_inverse.
          let decrypt_to_p = l_function (c ^ nat (p - 1) mod (p * p)) p * hp mod p;
              decrypt_to_q = l_function (c ^ nat (q - 1) mod (q * q)) q * hq mod q;
              u = (decrypt_to_q - decrypt_to_p) * p_inverse mod q
          in Inr (decrypt_to_p + u * p)))))"

definition decode :: "int \<Rightarrow> int \<Rightarrow> error + int" where
  "decode n encoding =
     (if n \<le> encoding then Inl ValueError
      else if encoding \<le> n div 3 - 1 then Inr encoding
      else if n - (n div 3 - 1) \<le> encoding then Inr (encoding - n)
      else Inl OverflowError)"

definition paillier_decrypt :: "int \<times> int \<Rightarrow> int \<Rightarrow> int \<Rightarrow> error + int" where
  "paillier_decrypt pq n c = andthen (raw_decrypt pq n c) (decode n)"

text \<open>Class \<^verbatim>\<open>Keys\<close>: a field is \<^verbatim>\<open>None\<close> while \<^verbatim>\<open>generate\<close> has not assigned it
  (reading it raises \<^verbatim>\<open>AttributeError\<close>).\<close>

record Keys =
  phe_public_key :: "int option"
  phe_private_key :: "(int \<times> int) option"
  ope_key :: "(int \<Rightarrow> error + int) option"

text \<open>\<^verbatim>\<open>generate\<close>: the two generators are inputs, \<^verbatim>\<open>None\<close> when the library raises. The
  exception is logged and the method returns.\<close>

definition generate ::
  "(int \<times> int) option \<Rightarrow> (int \<Rightarrow> error + int) option \<Rightarrow> event list \<times> Keys" where
  "generate paillier_keypair ope =
     (case paillier_keypair of
        None \<Rightarrow>
          ([LogError ''keys generation failed!''],
           \<lparr>phe_public_key = None, phe_private_key = None, ope_key = None\<rparr>)
      | Some (p, q) \<Rightarrow>
          (case ope of
             None \<Rightarrow>
               ([LogError ''keys generation failed!''],
                \<lparr>phe_public_key = Some (p * q), phe_private_key = Some (p, q), ope_key = None\<rparr>)
           | Some k \<Rightarrow>
               ([], \<lparr>phe_public_key = Some (p * q), phe_private_key = Some (p, q),
                     ope_key = Some k\<rparr>)))"

definition send_public_key :: "Keys \<Rightarrow> bool \<Rightarrow> event list" where
  "send_public_key self ok =
     (case Keys.phe_public_key self of
        None \<Rightarrow> [LogError ''failed to send paillier public key!'']
      | Some n \<Rightarrow>
          if ok then [Sent (JObj (setitem [] ''n'' (JInt n)))]
          else [SendRaised (JObj (setitem [] ''n'' (JInt n))),
                LogError ''failed to send paillier public key!''])"

subsection \<open>Class \<^verbatim>\<open>Instruction\<close> of the client\<close>

text \<open>\<^verbatim>\<open>input\<close> takes the next line the operator typed in this iteration, and raises
  \<^verbatim>\<open>EOFError\<close> when there is none.\<close>

definition input :: "string list \<Rightarrow> error + string \<times> string list" where
  "input typed = (case typed of [] \<Rightarrow> Inl EOFError | l # rest \<Rightarrow> Inr (l, rest))"

text \<open>\<^verbatim>\<open>read_instruction\<close> catches \<^verbatim>\<open>ValueError\<close> only.\<close>

definition client_read_instruction ::
  "Instruction \<Rightarrow> string list \<Rightarrow> error + event list \<times> bool \<times> Instruction \<times> string list" where
  "client_read_instruction self typed =
     andthen (input typed) (\<lambda>(l, rest).
       (case int_of_str l of
          Inl e \<Rightarrow> Inr ([LogError ''wrong input type''], False, self\<lparr>instruction := None\<rparr>, rest)
        | Inr i \<Rightarrow> Inr ([], True, self\<lparr>instruction := Some i\<rparr>, rest)))"

definition set_data :: "Instruction \<Rightarrow> string \<Rightarrow> json \<Rightarrow> Instruction" where
  "set_data self k v =
     self\<lparr>instruction_data :=
            (case instruction_data self of JObj d \<Rightarrow> JObj (setitem d k v) | other \<Rightarrow> other)\<rparr>"

text \<open>\<^verbatim>\<open>client_socket.send(dumps(self.instruction_data).encode('utf-8'))\<close>.\<close>

definition send_frame :: "Instruction \<Rightarrow> bool \<Rightarrow> event list \<times> (error + unit)" where
  "send_frame self ok =
     (if ok then ([Sent (instruction_data self)], Inr ())
      else ([SendRaised (instruction_data self)], Inl OSError))"

definition client_add_employee ::
  "Instruction \<Rightarrow> bool \<Rightarrow> Keys \<Rightarrow> string list \<Rightarrow> nat \<Rightarrow> event list \<times> (error + unit)" where
  "client_add_employee self ok keys typed draw =
     (case andthen (input typed) (\<lambda>(l, rest).
           andthen (int_of_str l) (\<lambda>salary.
           andthen (case Keys.phe_public_key keys of
                      None \<Rightarrow> Inl AttributeError
                    | Some n \<Rightarrow> paillier_encrypt n salary draw) (\<lambda>paillier_salary.
           andthen (case ope_key keys of
                      None \<Rightarrow> Inl AttributeError
                    | Some ope \<Rightarrow> ope salary) (\<lambda>ope_salary.
             Inr (set_data self ''data''
                    (JObj (setitem (setitem [] ''paillier_salary'' (JInt paillier_salary))
                             ''ope_salary'' (JInt ope_salary)))))))) of
        Inl e \<Rightarrow> ([], Inl e)
      | Inr self' \<Rightarrow> send_frame self' ok)"

text \<open>\<^verbatim>\<open>compare_employees\<close> and \<^verbatim>\<open>get_salaries_sum\<close> have the same body: the two lines
  typed go into the frame as strings.\<close>

definition client_two_ids ::
  "Instruction \<Rightarrow> bool \<Rightarrow> string list \<Rightarrow> event list \<times> (error + unit)" where
  "client_two_ids self ok typed =
     (case andthen (input typed) (\<lambda>(id_1, rest).
           andthen (input rest) (\<lambda>(id_2, rest').
             Inr (set_data self ''data''
                    (JObj (setitem (setitem [] ''id_1'' (JStr id_1)) ''id_2'' (JStr id_2)))))) of
        Inl e \<Rightarrow> ([], Inl e)
      | Inr self' \<Rightarrow> send_frame self' ok)"

definition str_code :: "int option \<Rightarrow> string" where
  "str_code c = (case c of None \<Rightarrow> ''None'' | Some i \<Rightarrow> str_int i)"

text \<open>\<^verbatim>\<open>send_instruction\<close>: \<^verbatim>\<open>quit\<close> and \<^verbatim>\<open>get_table\<close> send the frame as it stands. The
  \<^verbatim>\<open>finally\<close> clause empties \<^verbatim>\<open>instruction_data\<close> on every path.\<close>

definition send_instruction ::
  "Instruction \<Rightarrow> bool \<Rightarrow> Keys \<Rightarrow> string list \<Rightarrow> nat \<Rightarrow> event list \<times> bool \<times> Instruction" where
  "send_instruction self ok keys typed draw =
     (let self' = set_data self ''instruction'' (JStr (str_code (instruction self)));
          cleared = (\<lambda>s. s\<lparr>instruction_data := JObj []\<rparr>);
          finish = (\<lambda>r. case r of
                      (evs, Inl e) \<Rightarrow> (evs, False, cleared (self'\<lparr>instruction := None\<rparr>))
                    | (evs, Inr u) \<Rightarrow> (evs, True, cleared self'))
      in if instruction self = Some 0 then finish (send_frame self' ok)
         else if instruction self = Some 1 then finish (send_frame self' ok)
         else if instruction self = Some 2 then finish (client_add_employee self' ok keys typed draw)
         else if instruction self = Some 3 then finish (client_two_ids self' ok typed)
         else if instruction self = Some 4 then finish (client_two_ids self' ok typed)
         else ([LogError ''wrong input value''], False, cleared self'))"

definition colored :: "string \<Rightarrow> string" where
  "colored s = CHR 0x1B # ''[94m'' @ s @ CHR 0x1B # ''[0m''"

text \<open>The body of the \<^verbatim>\<open>try\<close> of \<^verbatim>\<open>read_result\<close>, after \<^verbatim>\<open>loads\<close>.\<close>

definition show_result :: "int option \<Rightarrow> Keys \<Rightarrow> json \<Rightarrow> error + event list" where
  "show_result instr keys res =
     andthen (getitem res ''result'') (\<lambda>code.
       if eq_int code 0 then
         (if instr = Some 4 then
            andthen (andthen (getitem res ''data'') py_int) (\<lambda>c.
            andthen (case Keys.phe_public_key keys of
                       None \<Rightarrow> Inl AttributeError
                     | Some n \<Rightarrow>
                         (case phe_private_key keys of
                            None \<Rightarrow> Inl AttributeError
                          | Some pq \<Rightarrow> paillier_decrypt pq n c)) (\<lambda>m.
              Inr [Print (colored (str_int m))]))
          else andthen (getitem res ''data'') (\<lambda>d. Inr [Print (colored (py_str d))]))
       else if eq_int code 1 then Inr [LogError ''server failed to read instruction'']
       else if eq_int code 2 then Inr [LogError ''server failed to execute instruction'']
       else if eq_int code 21 then
         andthen (getitem res ''data'') (\<lambda>d. Inr [LogError (''server error: '' @ py_str d)])
       else if eq_int code 3 then Inr [LogError ''server failed to send result'']
       else Inr [LogError (''unknown result code: '' @ py_str code)])"

text \<open>\<^verbatim>\<open>read_result\<close>: whatever the body raises gives \<^verbatim>\<open>False\<close>. The \<^verbatim>\<open>finally\<close> clause
  calls \<^verbatim>\<open>clear\<close> on the document received, which a dictionary and a list have; on any
  other document that call raises, and the exception leaves the method.\<close>

definition client_read_result ::
  "Instruction \<Rightarrow> Keys \<Rightarrow> incoming \<Rightarrow> event list \<times> Instruction \<times> (error + bool)" where
  "client_read_result self keys received =
     (case received of
        Doc res \<Rightarrow>
          (let (evs, ok) = (case show_result (instruction self) keys res of
                              Inl e \<Rightarrow> ([], False)
                            | Inr evs \<Rightarrow> (evs, True))
           in (case res of
                 JObj d \<Rightarrow> (evs, self\<lparr>result_data := []\<rparr>, Inr ok)
               | JList xs \<Rightarrow> (evs, self\<lparr>result_data := []\<rparr>, Inr ok)
               | other \<Rightarrow> (evs, self, Inl AttributeError)))
      | _ \<Rightarrow> ([], self\<lparr>result_data := []\<rparr>, Inr False))"

subsection \<open>The loop of the client's \<^verbatim>\<open>app\<close>\<close>

text \<open>One element of the input list is what one iteration meets: the lines typed, the
  random draw of the encryption, whether \<^verbatim>\<open>send\<close> returns, and the frame read in
  answer.\<close>

record client_round =
  typed :: "string list"
  draw :: nat
  sent_ok :: bool
  reply :: incoming

text \<open>The body of the \<^verbatim>\<open>while\<close>.\<close>

definition client_iteration ::
  "Keys \<Rightarrow> Instruction \<Rightarrow> client_round \<Rightarrow> event list \<times> (error + unit) \<times> Instruction" where
  "client_iteration keys self rd =
     (case client_read_instruction self (typed rd) of
        Inl e \<Rightarrow> ([], Inl e, self)
      | Inr (evs0, False, self1, rest) \<Rightarrow>
          (evs0 @ [LogError ''failed to read instruction''], Inr (), self1)
      | Inr (evs0, True, self1, rest) \<Rightarrow>
          (case send_instruction self1 (sent_ok rd) keys rest (draw rd) of
             (evs, False, self2) \<Rightarrow>
               (evs0 @ evs @ [LogError ''failed to send instruction''], Inr (), self2)
           | (evs, True, self2) \<Rightarrow>
               (case client_read_result self2 keys (reply rd) of
                  (evs2, self3, Inl e) \<Rightarrow> (evs0 @ evs @ evs2, Inl e, self3)
                | (evs2, self3, Inr True) \<Rightarrow> (evs0 @ evs @ evs2, Inr (), self3)
                | (evs2, self3, Inr False) \<Rightarrow>
                    (evs0 @ evs @ evs2 @ [LogError ''failed to read result''], Inr (), self3))))"

text \<open>An exception that leaves the body is logged by the \<^verbatim>\<open>except\<close> around the loop.\<close>

fun client_loop :: "Keys \<Rightarrow> Instruction \<Rightarrow> client_round list \<Rightarrow> event list \<times> status" where
  "client_loop keys self [] = ([], if instruction self = Some 0 then Finished else Blocked)"
| "client_loop keys self (rd # rds) =
     (if instruction self = Some 0 then ([], Finished)
      else
        (case client_iteration keys self rd of
           (evs, Inl e, self') \<Rightarrow> (evs @ [LogError ''something went wrong!''], Unwound e)
         | (evs, Inr u, self') \<Rightarrow>
             (case client_loop keys self' rds of (evs', st) \<Rightarrow> (evs @ evs', st))))"

declare client_loop.simps [simp del]

text \<open>\<^verbatim>\<open>app\<close>: the connection is made first, then the keys are generated and the public
  key is announced, then the loop runs; the connection is closed when the loop is left.\<close>

definition client_app ::
  "(int \<times> int) option \<Rightarrow> (int \<Rightarrow> error + int) option \<Rightarrow> bool \<Rightarrow> client_round list
     \<Rightarrow> event list \<times> status" where
  "client_app paillier_keypair ope announce_ok rounds =
     (case generate paillier_keypair ope of
        (evs_gen, keys) \<Rightarrow>
          (case client_loop keys new_Instruction rounds of
             (evs, st) \<Rightarrow>
               (Connect # evs_gen @ send_public_key keys announce_ok @ evs
                  @ (if st = Blocked then [] else [Close]),
                st)))"

section \<open>Observing a session\<close>

text \<open>What a run of the server's loop shows from outside: the frames written, how the
  loop ended, and the store.\<close>

definition outcome ::
  "event list \<times> status \<times> Instruction \<times> store \<Rightarrow> event list \<times> status \<times> store" where
  "outcome r = (fst r, fst (snd r), snd (snd (snd r)))"

definition after ::
  "event list \<Rightarrow> event list \<times> status \<times> store \<Rightarrow> event list \<times> status \<times> store" where
  "after evs r = (evs @ fst r, snd r)"

text \<open>The state in which an iteration calls \<^verbatim>\<open>send_result\<close>, and the store then.\<close>

definition pending :: "Key \<Rightarrow> Instruction \<Rightarrow> store \<Rightarrow> server_round \<Rightarrow> Instruction \<times> store" where
  "pending key self db rd =
     (case server_read_instruction self (frame rd) of
        (False, self1) \<Rightarrow> (self1, db)
      | (True, self1) \<Rightarrow>
          (case server_execute_instruction self1 (store_up rd) db key (seed rd) of
             (executed, self2, db2) \<Rightarrow> (self2, db2)))"

text \<open>Two states of the loop that agree on \<^verbatim>\<open>result_data\<close> and on whether the last code
  was 0.\<close>

definition alike :: "Instruction \<Rightarrow> Instruction \<Rightarrow> bool" where
  "alike s t =
     (result_data s = result_data t \<and> (instruction s = Some 0 \<longleftrightarrow> instruction t = Some 0))"

text \<open>The number a string of decimal digits denotes.\<close>

definition decimal :: "string \<Rightarrow> nat" where
  "decimal s = foldl (\<lambda>acc c. acc * 10 + digit_val c) 0 s"

text \<open>Concrete inputs: an empty store, a store of two rows, the key of modulus 15, and a
  round in which the store answers and every \<^verbatim>\<open>send\<close> returns.\<close>

definition db0 :: store where
  "db0 = \<lparr>tables = [''Employees''], employees = [], next_id = 1\<rparr>"

definition db2 :: store where
  "db2 = \<lparr>tables = [''Employees''],
           employees = [\<lparr>emp_id = 1, phe_salary = ''16'', ope_salary = ''5''\<rparr>,
                        \<lparr>emp_id = 2, phe_salary = ''31'', ope_salary = ''7''\<rparr>],
           next_id = 3\<rparr>"

definition key15 :: Key where
  "key15 = \<lparr>Key.phe_public_key = Some 15\<rparr>"

definition instr :: "json \<Rightarrow> server_round" where
  "instr d = \<lparr>frame = Doc d, store_up = True, seed = 0, send_ok = True, retry_ok = True\<rparr>"

text \<open>The frame of COMPARE on the ids 1 and 2.\<close>

definition compare12 :: json where
  "compare12 = JObj [(''instruction'', JStr ''3''),
                     (''data'', JObj [(''id_1'', JStr ''1''), (''id_2'', JStr ''2'')])]"

text \<open>Concrete inputs of the client: an order-preserving cipher on the input range of
  \<^verbatim>\<open>pyope\<close>, the keys made of the primes 191 and 193 and that cipher, and a round in which
  the operator types the given lines, \<^verbatim>\<open>send\<close> returns and the given result arrives.\<close>

definition ope0 :: "int \<Rightarrow> error + int" where
  "ope0 v = (if 0 \<le> v \<and> v < 32768 then Inr (65536 * v + 4711) else Inl ValueError)"

definition keys_demo :: Keys where
  "keys_demo = \<lparr>phe_public_key = Some 36863, phe_private_key = Some (191, 193), ope_key = Some ope0\<rparr>"

definition operator :: "string list \<Rightarrow> json \<Rightarrow> client_round" where
  "operator ls r = \<lparr>typed = ls, draw = 0, sent_ok = True, reply = Doc r\<rparr>"

text \<open>The request for the table list, and its result on the empty store.\<close>

definition list_frame :: json where
  "list_frame = JObj [(''instruction'', JStr ''1'')]"

definition tables_result :: json where
  "tables_result = JObj [(''result'', JStr ''0''), (''data'', JList [JList [JStr ''Employees'']])]"

text \<open>The frames an iteration of the client may write, by the code the operator typed:
  the code alone (0 and 1), the code and the two lines typed as ids (3 and 4), and for
  code 2 the code and the two ciphertexts of the salary typed.\<close>

definition frame_for :: "Keys \<Rightarrow> int \<Rightarrow> string list \<Rightarrow> nat \<Rightarrow> json \<Rightarrow> bool" where
  "frame_for keys i rest dr f =
     ((i = 0 \<or> i = 1) \<and> f = JObj [(''instruction'', JStr (str_int i))]
      \<or> (i = 3 \<or> i = 4) \<and>
        (\<exists>id_1 id_2 more. rest = id_1 # id_2 # more \<and>
           f = JObj [(''instruction'', JStr (str_int i)),
                     (''data'', JObj [(''id_1'', JStr id_1), (''id_2'', JStr id_2)])])
      \<or> i = 2 \<and>
        (\<exists>line more salary n ope pc oc.
           rest = line # more \<and> int_of_str line = Inr salary \<and>
           Keys.phe_public_key keys = Some n \<and> ope_key keys = Some ope \<and>
           paillier_encrypt n salary dr = Inr pc \<and> ope salary = Inr oc \<and>
           f = JObj [(''instruction'', JStr ''2''),
                     (''data'', JObj [(''paillier_salary'', JInt pc),
                                      (''ope_salary'', JInt oc)])]))"

definition instruction_frame :: "Keys \<Rightarrow> client_round \<Rightarrow> json \<Rightarrow> bool" where
  "instruction_frame keys rd f =
     (\<exists>code rest i. typed rd = code # rest \<and> int_of_str code = Inr i \<and>
        frame_for keys i rest (draw rd) f)"

text \<open>The frames a run handed to \<^verbatim>\<open>send\<close>, delivered or not.\<close>

definition written :: "event list \<Rightarrow> json set" where
  "written evs = {f. Sent f \<in> set evs \<or> SendRaised f \<in> set evs}"

text \<open>The result codes of the protocol, as the server writes them.\<close>

definition result_codes :: "string set" where
  "result_codes = {''0'', ''1'', ''2'', ''3'', ''21''}"

text \<open>Keys after a failed generation, and the server's key after a failed rebuild.\<close>

definition no_keys :: Keys where
  "no_keys = \<lparr>phe_public_key = None, phe_private_key = None, ope_key = None\<rparr>"

definition no_key :: Key where
  "no_key = \<lparr>Key.phe_public_key = None\<rparr>"

text \<open>Keys after a generation in which the Paillier pair was made and the order-preserving
  key was not.\<close>

definition paillier_only :: "int \<Rightarrow> int \<Rightarrow> Keys" where
  "paillier_only p q =
     \<lparr>phe_public_key = Some (p * q), phe_private_key = Some (p, q), ope_key = None\<rparr>"

text \<open>The frames of a session that adds the salaries 5000 and 7000 under the keys above
  (random draw 1) and asks for the sum of the ids 1 and 2, and the results the server
  writes.\<close>

definition add5000 :: json where
  "add5000 = JObj [(''instruction'', JStr ''2''),
                   (''data'', JObj [(''paillier_salary'', JInt 184315001),
                                    (''ope_salary'', JInt 327684711)])]"

definition add7000 :: json where
  "add7000 = JObj [(''instruction'', JStr ''2''),
                   (''data'', JObj [(''paillier_salary'', JInt 258041001),
                                    (''ope_salary'', JInt 458756711)])]"

definition sum12 :: json where
  "sum12 = JObj [(''instruction'', JStr ''4''),
                 (''data'', JObj [(''id_1'', JStr ''1''), (''id_2'', JStr ''2'')])]"

definition ok_result :: json where
  "ok_result = JObj [(''result'', JStr ''0''), (''data'', JStr ''OK'')]"

definition sum_result :: json where
  "sum_result = JObj [(''result'', JStr ''0''), (''data'', JInt 442356001)]"

section \<open>Properties of the server's loop\<close>

lemma andthen_simps [simp]:
  "andthen (Inr x) f = f x" "andthen (Inl e) f = Inl e"
  by (simp_all add: andthen_def)

lemmas int_defs = int_of_str_def strip_def is_space_def parse_number_def is_digit_def
  digit_val_def max_str_digits_def

lemmas str_defs = str_int_def str_nat.simps digit_char_def

lemmas server_defs = server_iteration_def server_read_instruction_def
  server_execute_instruction_def server_dispatch_def server_quit_def server_get_table_def
  server_add_employee_def server_compare_employees_def server_get_salaries_sum_def
  wrong_instruction_value_def set_result_def show_tables_def insert_employee_def
  select_top_id_def select_phe_def Let_def

text \<open>The three outcomes of \<^verbatim>\<open>send_result\<close>.\<close>

lemma send_result_cases:
  "send_result s ok r =
     (if ok then ([Sent (JObj (result_data s))], s\<lparr>result_data := []\<rparr>, Inr True)
      else if r then ([SendRaised (JObj (result_data s)), Sent (JObj [(''result'', JStr ''3'')])],
                      s\<lparr>instruction := None, result_data := []\<rparr>, Inr False)
      else ([SendRaised (JObj (result_data s)), SendRaised (JObj [(''result'', JStr ''3'')])],
            s\<lparr>instruction := None, result_data := []\<rparr>, Inl OSError))"
  by (simp add: send_result_def Let_def)

text \<open>A separator before the digits is no white space to \<^verbatim>\<open>int\<close>: the coercion raises,
  and a frame whose code is written so is answered with the code \<^verbatim>\<open>'2'\<close>.\<close>

lemma separators_are_not_white_space:
  "int_of_str [CHR 0x1F, CHR ''9'', CHR ''9''] = Inl ValueError"
  "int_of_str [CHR 0x1C, CHR ''1''] = Inl ValueError"
  "int_of_str [CHR 0xA0, CHR ''+'', CHR ''0'', CHR ''_'', CHR ''4'', CHR 0x85] = Inr 4"
  by (simp_all add: int_defs)

lemma separator_before_code:
  "outcome (server_loop key15 new_Instruction db0
              [instr (JObj [(''instruction'', JStr [CHR 0x1F, CHR ''9'', CHR ''9''])])])
     = ([Sent (JObj [(''result'', JStr ''2'')])], Blocked, db0)"
  by (simp add: server_loop.simps server_defs int_defs send_result_cases new_Instruction_def
        instr_def db0_def outcome_def)

text \<open>The field \<^verbatim>\<open>instruction\<close> is assigned before it is read, so an iteration does not
  depend on the value the previous one left there, beyond the test of the \<^verbatim>\<open>while\<close>.\<close>

lemma dispatch_ignores_instruction:
  "server_dispatch (s\<lparr>instruction := x\<rparr>) up db key sd = server_dispatch s up db key sd"
  by (simp add: server_dispatch_def Let_def)

lemma execute_ignores_instruction:
  "server_execute_instruction (s\<lparr>instruction := x\<rparr>) up db key sd =
   server_execute_instruction s up db key sd"
  by (simp add: server_execute_instruction_def dispatch_ignores_instruction split: sum.splits)

lemma server_iteration_alike:
  assumes "alike s t" and "server_iteration key s db rd = (evs, res, s', db')"
  shows "\<exists>t'. server_iteration key t db rd = (evs, res, t', db') \<and> alike s' t'"
proof (cases "frame rd")
  case (Doc d)
  have "t\<lparr>instruction_data := d\<rparr> = (s\<lparr>instruction_data := d\<rparr>)\<lparr>instruction := instruction t\<rparr>"
    using assms(1) by (cases s; cases t) (simp add: alike_def)
  then have e:
    "server_execute_instruction (t\<lparr>instruction_data := d\<rparr>) (store_up rd) db key (seed rd)
     = server_execute_instruction (s\<lparr>instruction_data := d\<rparr>) (store_up rd) db key (seed rd)"
    by (simp only: execute_ignores_instruction)
  show ?thesis
    using assms(2) Doc e
    by (auto simp: server_iteration_def server_read_instruction_def send_result_cases alike_def
             split: prod.splits if_splits)
next
  case RecvRaises
  then show ?thesis
    using assms
    by (auto simp: server_iteration_def server_read_instruction_def send_result_cases alike_def
          set_result_def split: prod.splits if_splits)
next
  case NotJson
  then show ?thesis
    using assms
    by (auto simp: server_iteration_def server_read_instruction_def send_result_cases alike_def
          set_result_def split: prod.splits if_splits)
qed

lemma server_loop_alike:
  "alike s t \<Longrightarrow> outcome (server_loop key s db rds) = outcome (server_loop key t db rds)"
proof (induction rds arbitrary: s t db)
  case Nil
  then show ?case by (simp add: server_loop.simps alike_def outcome_def)
next
  case (Cons rd rds)
  show ?case
  proof (cases "instruction s = Some 0")
    case True
    with Cons.prems show ?thesis by (simp add: server_loop.simps alike_def outcome_def)
  next
    case False
    with Cons.prems have t0: "instruction t \<noteq> Some 0" by (simp add: alike_def)
    obtain evs res s' db' where it: "server_iteration key s db rd = (evs, res, s', db')"
      by (cases "server_iteration key s db rd") auto
    from server_iteration_alike[OF Cons.prems it]
    obtain t' where it': "server_iteration key t db rd = (evs, res, t', db')" and a: "alike s' t'"
      by blast
    show ?thesis
    proof (cases res)
      case (Inl e)
      then show ?thesis using False t0 it it' by (simp add: server_loop.simps outcome_def)
    next
      case (Inr b)
      then show ?thesis using False t0 it it' Cons.IH[OF a, of db']
        by (auto simp: server_loop.simps outcome_def split: prod.splits)
    qed
  qed
qed

text \<open>An iteration that returns and leaves a code other than 0 is followed by the rest of
  the session, which runs as a session just started would on the store left behind.\<close>

lemma server_loop_continues:
  assumes "instruction self \<noteq> Some 0"
      and "server_iteration key self db rd = (evs, Inr sent, self', db')"
      and "instruction self' \<noteq> Some 0" and "result_data self' = []"
  shows "outcome (server_loop key self db (rd # rds))
         = after evs (outcome (server_loop key new_Instruction db' rds))"
proof -
  have "alike self' new_Instruction"
    using assms(3,4) by (simp add: alike_def new_Instruction_def)
  from server_loop_alike[OF this, of key db' rds] show ?thesis
    using assms(1,2) by (auto simp: server_loop.simps outcome_def after_def split: prod.splits)
qed

text \<open>An exception of the second \<^verbatim>\<open>send\<close> ends the loop: no further input is read.\<close>

lemma server_loop_unwinds:
  assumes "instruction self \<noteq> Some 0"
      and "server_iteration key self db rd = (evs, Inl e, self', db')"
  shows "outcome (server_loop key self db (rd # rds)) = (evs, Unwound e, db')"
  using assms by (simp add: server_loop.simps outcome_def)

lemma server_iteration_pending:
  "server_iteration key self db rd =
     (case pending key self db rd of
        (s, db') \<Rightarrow> (case send_result s (send_ok rd) (retry_ok rd) of
                       (evs, s', res) \<Rightarrow> (evs, res, s', db')))"
  by (simp add: server_iteration_def pending_def split: prod.splits bool.splits)

text \<open>The iteration in which the body of \<^verbatim>\<open>execute_instruction\<close> raises.\<close>

lemma failed_execution_iteration:
  assumes "result_data self = []" and "frame rd = Doc d"
      and "server_dispatch (self\<lparr>instruction_data := d\<rparr>) (store_up rd) db key (seed rd) = Inl e"
      and "send_ok rd \<or> retry_ok rd"
  shows "server_iteration key self db rd
        = (if send_ok rd then [Sent (JObj [(''result'', JStr ''2'')])]
           else [SendRaised (JObj [(''result'', JStr ''2'')]), Sent (JObj [(''result'', JStr ''3'')])],
           Inr (send_ok rd),
           self\<lparr>instruction := None, instruction_data := d, result_data := []\<rparr>, db)"
  using assms
  by (auto simp: server_iteration_def server_read_instruction_def server_execute_instruction_def
        set_result_def send_result_cases)

text \<open>What makes the body raise: a code that is absent or does not coerce, a store that
  is down, a payload without \<^verbatim>\<open>data\<close>, a comparison that finds no row.\<close>

lemma dispatch_failures:
  "andthen (getitem d ''instruction'') py_int = Inl e \<Longrightarrow>
     server_dispatch (self\<lparr>instruction_data := d\<rparr>) up db key sd = Inl e"
  "andthen (getitem d ''instruction'') py_int = Inr c \<Longrightarrow> c \<in> {1, 2, 3, 4} \<Longrightarrow> \<not> up \<Longrightarrow>
     \<exists>e. server_dispatch (self\<lparr>instruction_data := d\<rparr>) up db key sd = Inl e"
  "andthen (getitem d ''instruction'') py_int = Inr c \<Longrightarrow> c \<in> {2, 3, 4} \<Longrightarrow>
   getitem d ''data'' = Inl e \<Longrightarrow>
     server_dispatch (self\<lparr>instruction_data := d\<rparr>) up db key sd = Inl e"
  "andthen (getitem d ''instruction'') py_int = Inr 3 \<Longrightarrow> getitem d ''data'' = Inr x \<Longrightarrow>
   andthen (getitem x ''id_1'') py_int = Inr a \<Longrightarrow> andthen (getitem x ''id_2'') py_int = Inr b \<Longrightarrow>
   select_top_id db a b = None \<Longrightarrow>
     \<exists>e. server_dispatch (self\<lparr>instruction_data := d\<rparr>) up db key sd = Inl e"
     apply (simp add: server_dispatch_def)
    apply (auto simp: server_dispatch_def server_get_table_def server_add_employee_def
      server_compare_employees_def server_get_salaries_sum_def andthen_def Let_def
      split: sum.splits)[1]
   apply (auto simp: server_dispatch_def server_add_employee_def
      server_compare_employees_def server_get_salaries_sum_def Let_def)[1]
  apply (auto simp: server_dispatch_def server_compare_employees_def Let_def)
  done

text \<open>A request for the table list on the empty store, used as the instruction that
  follows in the examples.\<close>

lemma list_tables_round:
  "outcome (server_loop key15 new_Instruction db0 [instr (JObj [(''instruction'', JStr ''1'')])])
     = ([Sent (JObj [(''result'', JStr ''0''), (''data'', JList [JList [JStr ''Employees'']])])],
        Blocked, db0)"
  by (simp add: server_loop.simps server_defs int_defs send_result_cases new_Instruction_def
        instr_def db0_def outcome_def)

text \<open>The primary key: at most one row has a given id.\<close>

lemma primary_key_single:
  "distinct (map emp_id rows) \<Longrightarrow> length (filter (\<lambda>r. emp_id r = a) rows) \<le> 1"
proof (induction rows)
  case Nil
  then show ?case by simp
next
  case (Cons r rows)
  have "emp_id r = a \<Longrightarrow> filter (\<lambda>r. emp_id r = a) rows = []"
    using Cons.prems by (force simp: filter_empty_conv image_iff)
  with Cons show ?case by auto
qed

section \<open>Unknown instruction codes\<close>

text \<open>
  Claim C8. In a running session (the last code was not 0, \<^verbatim>\<open>result_data\<close> is empty, as
  it is at the head of every iteration), let the frame read be a document whose field
  \<^verbatim>\<open>instruction\<close> coerces to an integer outside 0..4, and let \<^verbatim>\<open>send\<close> return. Then the
  server writes exactly one frame, the result of code \<^verbatim>\<open>'21'\<close> with the message
  \<^verbatim>\<open>wrong instruction value\<close>, leaves the store as it was, and goes on with the remaining
  input as a session just started would: every later instruction is served.
\<close>

theorem C8_unknown_code:
  assumes "instruction self \<noteq> Some 0" and "result_data self = []"
      and "frame rd = Doc d"
      and "andthen (getitem d ''instruction'') py_int = Inr c"
      and "c \<notin> {0, 1, 2, 3, 4}"
      and "send_ok rd"
  shows "outcome (server_loop key self db (rd # rds))
         = after [Sent (JObj [(''result'', JStr ''21''),
                              (''data'', JStr ''wrong instruction value'')])]
             (outcome (server_loop key new_Instruction db rds))"
proof -
  have "server_iteration key self db rd
        = ([Sent (JObj [(''result'', JStr ''21''), (''data'', JStr ''wrong instruction value'')])],
           Inr True,
           self\<lparr>instruction := Some c, instruction_data := d, result_data := []\<rparr>, db)"
    using assms(2-6) by (simp add: server_defs send_result_cases)
  from server_loop_continues[OF assms(1) this] assms(5) show ?thesis by simp
qed

text \<open>The code 99, followed by a request for the table list, which is answered.\<close>

theorem C8_unknown_code_witness:
  "instruction new_Instruction \<noteq> Some 0 \<and> result_data new_Instruction = [] \<and>
   frame (instr (JObj [(''instruction'', JStr ''99'')])) = Doc (JObj [(''instruction'', JStr ''99'')]) \<and>
   andthen (getitem (JObj [(''instruction'', JStr ''99'')]) ''instruction'') py_int = Inr 99 \<and>
   (99::int) \<notin> {0, 1, 2, 3, 4} \<and>
   send_ok (instr (JObj [(''instruction'', JStr ''99'')])) \<and>
   outcome (server_loop key15 new_Instruction db0
              [instr (JObj [(''instruction'', JStr ''99'')]), instr (JObj [(''instruction'', JStr ''1'')])])
     = ([Sent (JObj [(''result'', JStr ''21''), (''data'', JStr ''wrong instruction value'')]),
         Sent (JObj [(''result'', JStr ''0''), (''data'', JList [JList [JStr ''Employees'']])])],
        Blocked, db0)"
proof -
  have h: "andthen (getitem (JObj [(''instruction'', JStr ''99'')]) ''instruction'') py_int = Inr 99"
    by (simp add: int_defs)
  show ?thesis
    using C8_unknown_code[of new_Instruction "instr (JObj [(''instruction'', JStr ''99'')])"
            "JObj [(''instruction'', JStr ''99'')]" 99 key15 db0
            "[instr (JObj [(''instruction'', JStr ''1'')])]"] h list_tables_round
    by (simp add: new_Instruction_def instr_def after_def)
qed

section \<open>Exceptions during execution\<close>

text \<open>
  Claim C4. In a running session, let the frame read be a document on which the body of
  \<^verbatim>\<open>execute_instruction\<close> raises (lemma \<open>dispatch_failures\<close> lists the ways: store
  failure, an id that is not found, a malformed payload, a failed coercion), and let the
  first \<^verbatim>\<open>send\<close> or the retry return. Then the exception is caught: the server writes
  the result of code \<^verbatim>\<open>'2'\<close> (followed by the result of code \<^verbatim>\<open>'3'\<close> when the first
  \<^verbatim>\<open>send\<close> raised), leaves the store as it was, and the loop goes on with the remaining
  input as a session just started would.
\<close>

theorem C4_execution_failure:
  assumes "instruction self \<noteq> Some 0" and "result_data self = []"
      and "frame rd = Doc d"
      and "server_dispatch (self\<lparr>instruction_data := d\<rparr>) (store_up rd) db key (seed rd) = Inl e"
      and "send_ok rd \<or> retry_ok rd"
  shows "outcome (server_loop key self db (rd # rds))
         = after (if send_ok rd then [Sent (JObj [(''result'', JStr ''2'')])]
                  else [SendRaised (JObj [(''result'', JStr ''2'')]),
                        Sent (JObj [(''result'', JStr ''3'')])])
             (outcome (server_loop key new_Instruction db rds))"
  using server_loop_continues[OF assms(1) failed_execution_iteration[OF assms(2-5)]] by simp

text \<open>A comparison of two ids on the empty store, followed by a request that is served.\<close>

theorem C4_execution_failure_witness:
  "instruction new_Instruction \<noteq> Some 0 \<and> result_data new_Instruction = [] \<and>
   frame (instr (JObj [(''instruction'', JStr ''3''),
                       (''data'', JObj [(''id_1'', JStr ''1''), (''id_2'', JStr ''2'')])]))
     = Doc (JObj [(''instruction'', JStr ''3''),
                  (''data'', JObj [(''id_1'', JStr ''1''), (''id_2'', JStr ''2'')])]) \<and>
   server_dispatch
     (new_Instruction\<lparr>instruction_data :=
        JObj [(''instruction'', JStr ''3''),
              (''data'', JObj [(''id_1'', JStr ''1''), (''id_2'', JStr ''2'')])]\<rparr>)
     True db0 key15 0 = Inl TypeError \<and>
   outcome (server_loop key15 new_Instruction db0
              [instr (JObj [(''instruction'', JStr ''3''),
                            (''data'', JObj [(''id_1'', JStr ''1''), (''id_2'', JStr ''2'')])]),
               instr (JObj [(''instruction'', JStr ''1'')])])
     = ([Sent (JObj [(''result'', JStr ''2'')]),
         Sent (JObj [(''result'', JStr ''0''), (''data'', JList [JList [JStr ''Employees'']])])],
        Blocked, db0)"
proof -
  let ?d = "JObj [(''instruction'', JStr ''3''),
                  (''data'', JObj [(''id_1'', JStr ''1''), (''id_2'', JStr ''2'')])]"
  have h: "server_dispatch (new_Instruction\<lparr>instruction_data := ?d\<rparr>) True db0 key15 0 = Inl TypeError"
    by (simp add: server_defs int_defs new_Instruction_def db0_def)
  show ?thesis
    using C4_execution_failure[of new_Instruction "instr ?d" ?d db0 key15 TypeError
            "[instr (JObj [(''instruction'', JStr ''1'')])]"] h list_tables_round
    by (simp add: new_Instruction_def instr_def after_def)
qed

section \<open>Frames that cannot be decoded, frames without a code\<close>

text \<open>
  Claim C6, as stated, fails: a document without the field \<^verbatim>\<open>instruction\<close> is read
  without error and fails in \<^verbatim>\<open>execute_instruction\<close>, so the result has the code
  \<^verbatim>\<open>'2'\<close>, not \<^verbatim>\<open>'1'\<close>.
\<close>

theorem C6_counterexample:
  "fst (outcome (server_loop key15 new_Instruction db0 [instr (JObj [])]))
     = [Sent (JObj [(''result'', JStr ''2'')])] \<and>
   fst (outcome (server_loop key15 new_Instruction db0 [instr (JObj [])]))
     \<noteq> [Sent (JObj [(''result'', JStr ''1'')])]"
  by (simp add: server_loop.simps server_defs send_result_cases new_Instruction_def instr_def
        db0_def outcome_def)

text \<open>
  Claim C6, amended. In a running session in which \<^verbatim>\<open>send\<close> returns: when the frame
  cannot be received or is no JSON text, the server writes the result of code \<^verbatim>\<open>'1'\<close>;
  when the frame is a JSON document that is no mapping or has no field
  \<^verbatim>\<open>instruction\<close>, the server writes the result of code \<^verbatim>\<open>'2'\<close>. In both cases the store
  is unchanged and the loop goes on with the remaining input as a session just started
  would.
\<close>

theorem C6_decode_failure:
  assumes "instruction self \<noteq> Some 0" and "result_data self = []" and "send_ok rd"
  shows "(frame rd = RecvRaises \<or> frame rd = NotJson \<longrightarrow>
            outcome (server_loop key self db (rd # rds))
            = after [Sent (JObj [(''result'', JStr ''1'')])]
                (outcome (server_loop key new_Instruction db rds))) \<and>
         (\<forall>d e. frame rd = Doc d \<and> getitem d ''instruction'' = Inl e \<longrightarrow>
            outcome (server_loop key self db (rd # rds))
            = after [Sent (JObj [(''result'', JStr ''2'')])]
                (outcome (server_loop key new_Instruction db rds)))"
proof (intro conjI impI allI)
  assume "frame rd = RecvRaises \<or> frame rd = NotJson"
  then have "server_iteration key self db rd
        = ([Sent (JObj [(''result'', JStr ''1'')])], Inr True,
           self\<lparr>instruction := None, result_data := []\<rparr>, db)"
    using assms(2,3)
    by (auto simp: server_iteration_def server_read_instruction_def set_result_def send_result_cases)
  from server_loop_continues[OF assms(1) this]
  show "outcome (server_loop key self db (rd # rds))
            = after [Sent (JObj [(''result'', JStr ''1'')])]
                (outcome (server_loop key new_Instruction db rds))" by simp
next
  fix d e assume "frame rd = Doc d \<and> getitem d ''instruction'' = Inl e"
  then have "server_iteration key self db rd
        = ([Sent (JObj [(''result'', JStr ''2'')])], Inr True,
           self\<lparr>instruction := None, instruction_data := d, result_data := []\<rparr>, db)"
    using assms(2,3)
    by (auto simp: server_iteration_def server_read_instruction_def server_execute_instruction_def
          server_dispatch_def set_result_def send_result_cases)
  from server_loop_continues[OF assms(1) this]
  show "outcome (server_loop key self db (rd # rds))
            = after [Sent (JObj [(''result'', JStr ''2'')])]
                (outcome (server_loop key new_Instruction db rds))" by simp
qed

text \<open>A frame that is no JSON text, and the document \<^verbatim>\<open>[]\<close>, each followed by a request
  that is served.\<close>

theorem C6_decode_failure_witness:
  "instruction new_Instruction \<noteq> Some 0 \<and> result_data new_Instruction = [] \<and>
   send_ok ((instr JNull)\<lparr>frame := NotJson\<rparr>) \<and>
   frame ((instr JNull)\<lparr>frame := NotJson\<rparr>) = NotJson \<and>
   send_ok (instr (JList [])) \<and>
   frame (instr (JList [])) = Doc (JList []) \<and>
   getitem (JList []) ''instruction'' = Inl TypeError \<and>
   outcome (server_loop key15 new_Instruction db0
              [(instr JNull)\<lparr>frame := NotJson\<rparr>, instr (JObj [(''instruction'', JStr ''1'')])])
     = ([Sent (JObj [(''result'', JStr ''1'')]),
         Sent (JObj [(''result'', JStr ''0''), (''data'', JList [JList [JStr ''Employees'']])])],
        Blocked, db0) \<and>
   outcome (server_loop key15 new_Instruction db0
              [instr (JList []), instr (JObj [(''instruction'', JStr ''1'')])])
     = ([Sent (JObj [(''result'', JStr ''2'')]),
         Sent (JObj [(''result'', JStr ''0''), (''data'', JList [JList [JStr ''Employees'']])])],
        Blocked, db0)"
proof -
  have a: "instruction new_Instruction \<noteq> Some 0" "result_data new_Instruction = []"
    by (simp_all add: new_Instruction_def)
  have s1: "send_ok ((instr JNull)\<lparr>frame := NotJson\<rparr>)" and s2: "send_ok (instr (JList []))"
    by (simp_all add: instr_def)
  show ?thesis
    using C6_decode_failure[OF a s1, of key15 db0 "[instr (JObj [(''instruction'', JStr ''1'')])]"]
          C6_decode_failure[OF a s2, of key15 db0 "[instr (JObj [(''instruction'', JStr ''1'')])]"]
          list_tables_round a
    by (simp add: instr_def after_def)
qed

section \<open>A result that cannot be sent\<close>

text \<open>
  Claim C7, as stated, fails: when the retry raises as well, the exception leaves
  \<^verbatim>\<open>send_result\<close> and the loop, and reaches the \<^verbatim>\<open>except\<close> of \<^verbatim>\<open>app\<close>. The session is
  over; the instruction that follows is never read.
\<close>

theorem C7_counterexample:
  "outcome (server_loop key15 new_Instruction db0
              [(instr (JObj [(''instruction'', JStr ''1'')]))\<lparr>send_ok := False, retry_ok := False\<rparr>,
               instr (JObj [(''instruction'', JStr ''1'')])])
     = ([SendRaised (JObj [(''result'', JStr ''0''), (''data'', JList [JList [JStr ''Employees'']])]),
         SendRaised (JObj [(''result'', JStr ''3'')])],
        Unwound OSError, db0)"
  by (simp add: server_loop.simps server_defs int_defs send_result_cases new_Instruction_def
        instr_def db0_def outcome_def)

text \<open>
  Claim C7, amended. In a running session, when the \<^verbatim>\<open>send\<close> of a result raises, the
  server makes exactly one more attempt, with a result that holds the code \<^verbatim>\<open>'3'\<close> and
  nothing else. When that attempt returns, the loop goes on with the remaining input as
  a session just started would. When it raises too, the exception ends the loop: nothing
  more is read or written.
\<close>

theorem C7_send_failure:
  assumes "instruction self \<noteq> Some 0" and "\<not> send_ok rd"
      and "pending key self db rd = (s, db')"
  shows "outcome (server_loop key self db (rd # rds))
         = (if retry_ok rd
            then after [SendRaised (JObj (result_data s)), Sent (JObj [(''result'', JStr ''3'')])]
                   (outcome (server_loop key new_Instruction db' rds))
            else ([SendRaised (JObj (result_data s)),
                   SendRaised (JObj [(''result'', JStr ''3'')])], Unwound OSError, db'))"
proof (cases "retry_ok rd")
  case True
  then have "server_iteration key self db rd
        = ([SendRaised (JObj (result_data s)), Sent (JObj [(''result'', JStr ''3'')])], Inr False,
           s\<lparr>instruction := None, result_data := []\<rparr>, db')"
    using assms(2,3) by (simp add: server_iteration_pending send_result_cases)
  from server_loop_continues[OF assms(1) this] True show ?thesis by simp
next
  case False
  then have "server_iteration key self db rd
        = ([SendRaised (JObj (result_data s)), SendRaised (JObj [(''result'', JStr ''3'')])],
           Inl OSError, s\<lparr>instruction := None, result_data := []\<rparr>, db')"
    using assms(2,3) by (simp add: server_iteration_pending send_result_cases)
  from server_loop_unwinds[OF assms(1) this] False show ?thesis by simp
qed

text \<open>The table list cannot be sent, the retry returns, and the next request is served.\<close>

theorem C7_send_failure_witness:
  "instruction new_Instruction \<noteq> Some 0 \<and>
   \<not> send_ok ((instr (JObj [(''instruction'', JStr ''1'')]))\<lparr>send_ok := False\<rparr>) \<and>
   pending key15 new_Instruction db0 ((instr (JObj [(''instruction'', JStr ''1'')]))\<lparr>send_ok := False\<rparr>)
     = (\<lparr>instruction = Some 1, instruction_data = JObj [(''instruction'', JStr ''1'')],
         result_data = [(''result'', JStr ''0''), (''data'', JList [JList [JStr ''Employees'']])]\<rparr>,
        db0) \<and>
   outcome (server_loop key15 new_Instruction db0
              [(instr (JObj [(''instruction'', JStr ''1'')]))\<lparr>send_ok := False\<rparr>,
               instr (JObj [(''instruction'', JStr ''1'')])])
     = ([SendRaised (JObj [(''result'', JStr ''0''), (''data'', JList [JList [JStr ''Employees'']])]),
         Sent (JObj [(''result'', JStr ''3'')]),
         Sent (JObj [(''result'', JStr ''0''), (''data'', JList [JList [JStr ''Employees'']])])],
        Blocked, db0)"
proof -
  let ?rd = "(instr (JObj [(''instruction'', JStr ''1'')]))\<lparr>send_ok := False\<rparr>"
  have p: "pending key15 new_Instruction db0 ?rd
     = (\<lparr>instruction = Some 1, instruction_data = JObj [(''instruction'', JStr ''1'')],
         result_data = [(''result'', JStr ''0''), (''data'', JList [JList [JStr ''Employees'']])]\<rparr>,
        db0)"
    by (simp add: pending_def server_defs int_defs new_Instruction_def instr_def db0_def)
  have a: "instruction new_Instruction \<noteq> Some 0" by (simp add: new_Instruction_def)
  have b: "\<not> send_ok ?rd" by (simp add: instr_def)
  show ?thesis
    using C7_send_failure[OF a b p, of "[instr (JObj [(''instruction'', JStr ''1'')])]"]
          list_tables_round a b p
    by (simp add: instr_def after_def)
qed

section \<open>A sum over fewer than two rows\<close>

text \<open>
  Claim C10. In a running session in which \<^verbatim>\<open>send\<close> returns, let the frame read be a SUM
  instruction (code 4) whose two ids coerce to integers, on a store whose ids are
  distinct (the primary key). When the two ids are equal, or fewer than two rows match
  them, the server writes the result of code \<^verbatim>\<open>'2'\<close> with no data, so no sum, and no
  doubled ciphertext, is returned; the loop goes on.
\<close>

theorem C10_sum_fewer_than_two_rows:
  assumes "instruction self \<noteq> Some 0" and "result_data self = []"
      and "frame rd = Doc d" and "send_ok rd"
      and "andthen (getitem d ''instruction'') py_int = Inr 4"
      and "getitem d ''data'' = Inr x"
      and "andthen (getitem x ''id_1'') py_int = Inr a"
      and "andthen (getitem x ''id_2'') py_int = Inr b"
      and "distinct (map emp_id (employees db))"
      and "a = b \<or> length (filter (\<lambda>r. emp_id r = a \<or> emp_id r = b) (employees db)) < 2"
  shows "outcome (server_loop key self db (rd # rds))
         = after [Sent (JObj [(''result'', JStr ''2'')])]
             (outcome (server_loop key new_Instruction db rds))"
proof -
  have few: "length (select_phe db a b) < 2"
  proof (cases "a = b")
    case True
    with primary_key_single[OF assms(9), of a] show ?thesis by (simp add: select_phe_def)
  next
    case False
    with assms(10) show ?thesis by (simp add: select_phe_def)
  qed
  have "\<exists>e. server_get_salaries_sum (self\<lparr>instruction_data := d, instruction := Some 4\<rparr>)
              (store_up rd) db key (seed rd) = Inl e"
  proof (cases "select_phe db a b")
    case Nil
    then show ?thesis using assms(6-8) by (simp add: server_get_salaries_sum_def)
  next
    case (Cons f rest)
    with few have "rest = []" by simp
    with Cons show ?thesis using assms(6-8)
      by (cases "int_of_str f") (simp_all add: server_get_salaries_sum_def)
  qed
  then obtain e where
    "server_dispatch (self\<lparr>instruction_data := d\<rparr>) (store_up rd) db key (seed rd) = Inl e"
    using assms(5) by (auto simp: server_dispatch_def)
  from failed_execution_iteration[OF assms(2,3) this] assms(4)
  have "server_iteration key self db rd
        = ([Sent (JObj [(''result'', JStr ''2'')])], Inr True,
           self\<lparr>instruction := None, instruction_data := d, result_data := []\<rparr>, db)"
    by simp
  from server_loop_continues[OF assms(1) this] show ?thesis by simp
qed

text \<open>The sum of row 1 with itself, on the store of two rows.\<close>

theorem C10_sum_fewer_than_two_rows_witness:
  "instruction new_Instruction \<noteq> Some 0 \<and> result_data new_Instruction = [] \<and>
   distinct (map emp_id (employees db2)) \<and>
   andthen (getitem (JObj [(''id_1'', JStr ''1''), (''id_2'', JStr ''1'')]) ''id_1'') py_int = Inr 1 \<and>
   andthen (getitem (JObj [(''id_1'', JStr ''1''), (''id_2'', JStr ''1'')]) ''id_2'') py_int = Inr 1 \<and>
   outcome (server_loop key15 new_Instruction db2
              [instr (JObj [(''instruction'', JStr ''4''),
                            (''data'', JObj [(''id_1'', JStr ''1''), (''id_2'', JStr ''1'')])])])
     = ([Sent (JObj [(''result'', JStr ''2'')])], Blocked, db2)"
proof -
  let ?x = "JObj [(''id_1'', JStr ''1''), (''id_2'', JStr ''1'')]"
  let ?d = "JObj [(''instruction'', JStr ''4''), (''data'', ?x)]"
  have a: "instruction new_Instruction \<noteq> Some 0" "result_data new_Instruction = []"
    by (simp_all add: new_Instruction_def)
  have f: "frame (instr ?d) = Doc ?d" "send_ok (instr ?d)" by (simp_all add: instr_def)
  have c: "andthen (getitem ?d ''instruction'') py_int = Inr 4" by (simp add: int_defs)
  have x: "getitem ?d ''data'' = Inr ?x" by simp
  have i: "andthen (getitem ?x ''id_1'') py_int = Inr 1" "andthen (getitem ?x ''id_2'') py_int = Inr 1"
    by (simp_all add: int_defs)
  have k: "distinct (map emp_id (employees db2))" by (simp add: db2_def)
  have e: "(1::int) = 1 \<or> length (filter (\<lambda>r. emp_id r = 1 \<or> emp_id r = 1) (employees db2)) < 2"
    by simp
  show ?thesis
    using C10_sum_fewer_than_two_rows[OF a f c x i k e, of key15 "[]"] a k i
    by (simp add: after_def server_loop.simps outcome_def new_Instruction_def)
qed

section \<open>Comparison\<close>

text \<open>On strings of decimal digits of one length, the order of the collation is the order
  of the numbers; \<^verbatim>\<open>int\<close> reads such a string as that number.\<close>

lemma foldl_decimal:
  "foldl (\<lambda>acc c. acc * 10 + digit_val c) acc s = acc * 10 ^ length s + decimal s"
proof (induction s arbitrary: acc)
  case Nil
  then show ?case by (simp add: decimal_def)
next
  case (Cons c cs)
  show ?case
    using Cons.IH[of "acc * 10 + digit_val c"] Cons.IH[of "digit_val c"]
    by (simp add: decimal_def algebra_simps)
qed

lemma decimal_Cons: "decimal (c # cs) = digit_val c * 10 ^ length cs + decimal cs"
  using foldl_decimal[of "digit_val c" cs] by (simp add: decimal_def)

lemma digit_val_bound: "is_digit c \<Longrightarrow> digit_val c \<le> 9"
  by (auto simp: is_digit_def digit_val_def)

lemma decimal_bound: "\<forall>c\<in>set s. is_digit c \<Longrightarrow> decimal s < 10 ^ length s"
proof (induction s)
  case Nil
  then show ?case by (simp add: decimal_def)
next
  case (Cons c cs)
  then have "decimal cs < 10 ^ length cs" and "digit_val c \<le> 9"
    by (simp_all add: digit_val_bound)
  then have "digit_val c * 10 ^ length cs + decimal cs < 9 * 10 ^ length cs + 10 ^ length cs"
    by (meson add_le_less_mono mult_le_mono1)
  then show ?case by (simp add: decimal_Cons)
qed

lemma weight_digit: "is_digit c \<Longrightarrow> weight c = digit_val c + 48"
  by (auto simp: is_digit_def weight_def digit_val_def Let_def)

lemma text_less_decimal:
  "length s = length t \<Longrightarrow> \<forall>c\<in>set s. is_digit c \<Longrightarrow> \<forall>c\<in>set t. is_digit c \<Longrightarrow>
   text_less s t \<longleftrightarrow> decimal s < decimal t"
proof (induction s t rule: list_induct2)
  case Nil
  then show ?case by (simp add: decimal_def)
next
  case (Cons x xs y ys)
  then have ih: "text_less xs ys \<longleftrightarrow> decimal xs < decimal ys"
    and dx: "is_digit x" and dy: "is_digit y"
    and bx: "decimal xs < 10 ^ length xs" and by': "decimal ys < 10 ^ length xs"
    using decimal_bound[of xs] decimal_bound[of ys] by simp_all
  have w: "weight x < weight y \<longleftrightarrow> digit_val x < digit_val y"
          "weight x = weight y \<longleftrightarrow> digit_val x = digit_val y"
    using dx dy by (simp_all add: weight_digit)
  show ?case
  proof (cases "digit_val x < digit_val y")
    case True
    then have "digit_val x + 1 \<le> digit_val y" by simp
    then have "(digit_val x + 1) * 10 ^ length xs \<le> digit_val y * 10 ^ length xs"
      by (rule mult_le_mono1)
    with bx have "digit_val x * 10 ^ length xs + decimal xs < digit_val y * 10 ^ length xs + decimal ys"
      by (simp add: algebra_simps)
    with True show ?thesis using Cons.hyps by (simp add: w decimal_Cons)
  next
    case False
    show ?thesis
    proof (cases "digit_val x = digit_val y")
      case True
      then show ?thesis using Cons.hyps ih by (simp add: w decimal_Cons)
    next
      case ne: False
      with False have "digit_val y + 1 \<le> digit_val x" by simp
      then have "(digit_val y + 1) * 10 ^ length xs \<le> digit_val x * 10 ^ length xs"
        by (rule mult_le_mono1)
      with by' have "\<not> digit_val x * 10 ^ length xs + decimal xs < digit_val y * 10 ^ length xs + decimal ys"
        by (simp add: algebra_simps)
      with False ne show ?thesis using Cons.hyps by (simp add: w decimal_Cons)
    qed
  qed
qed

lemma parse_digits_decimal:
  "\<forall>c\<in>set s. is_digit c \<Longrightarrow>
   parse_digits acc s = Some (foldl (\<lambda>acc c. acc * 10 + digit_val c) acc s)"
  by (induction acc s rule: parse_digits.induct) simp_all

lemma digit_not_space: "is_digit c \<Longrightarrow> \<not> is_space c"
  by (auto simp: is_digit_def is_space_def Let_def)

lemma strip_digits: "\<forall>c\<in>set s. is_digit c \<Longrightarrow> strip s = s"
proof -
  assume a: "\<forall>c\<in>set s. is_digit c"
  have d: "\<And>u. \<forall>c\<in>set u. is_digit c \<Longrightarrow> dropWhile is_space u = u"
    by (case_tac u) (auto simp: digit_not_space)
  from a have "dropWhile is_space s = s" by (rule d)
  moreover from a have "dropWhile is_space (rev s) = rev s" by (intro d) simp
  ultimately show ?thesis by (simp add: strip_def)
qed

lemma int_of_str_decimal:
  assumes "\<forall>c\<in>set s. is_digit c" and "int_of_str s = Inr v"
  shows "v = int (decimal s)"
proof (cases s)
  case Nil
  with assms(2) show ?thesis by (simp add: int_of_str_def strip_def)
next
  case (Cons c cs)
  with assms(1) have dc: "is_digit c" by simp
  then have "c \<noteq> CHR ''-''" "c \<noteq> CHR ''+''" by (auto simp: is_digit_def)
  moreover have "strip s = s" using assms(1) by (rule strip_digits)
  moreover have "parse_digits 0 s = Some (decimal s)"
    using parse_digits_decimal[OF assms(1), of 0] by (simp add: decimal_def)
  ultimately show ?thesis
    using assms(2) Cons dc
    by (auto simp: int_of_str_def parse_number_def split: if_splits option.splits)
qed


text \<open>
  Claim C2, as stated, fails: the data of the result ends in \<^verbatim>\<open>has a higher salary\<close>,
  not in \<^verbatim>\<open>has a higher value\<close>. The store holds the order ciphertexts 5 (id 1) and 7
  (id 2).
\<close>

theorem C2_counterexample:
  "fst (outcome (server_loop key15 new_Instruction db2 [instr compare12]))
     = [Sent (JObj [(''result'', JStr ''0''), (''data'', JStr ''Id 2 has a higher salary'')])] \<and>
   fst (outcome (server_loop key15 new_Instruction db2 [instr compare12]))
     \<noteq> [Sent (JObj [(''result'', JStr ''0''), (''data'', JStr ''Id 2 has a higher value'')])]"
  by (simp add: server_loop.simps server_defs int_defs str_defs weight_def send_result_cases
        new_Instruction_def instr_def db2_def compare12_def outcome_def)

text \<open>
  The column \<^verbatim>\<open>ope_salary\<close> is declared \<^verbatim>\<open>TEXT\<close>, so \<^verbatim>\<open>ORDER BY\<close> compares strings, and
  of the order ciphertexts 9 (id 1) and 10 (id 2) the first sorts higher. The amended
  claim below speaks of ciphertexts of one length only and says nothing on this case.
\<close>

lemma compare_sorts_text:
  "fst (outcome (server_loop key15 new_Instruction
                   (db2\<lparr>employees := [\<lparr>emp_id = 1, phe_salary = ''16'', ope_salary = ''9''\<rparr>,
                                      \<lparr>emp_id = 2, phe_salary = ''31'', ope_salary = ''10''\<rparr>]\<rparr>)
                   [instr compare12]))
     = [Sent (JObj [(''result'', JStr ''0''), (''data'', JStr ''Id 1 has a higher salary'')])]"
  by (simp add: server_loop.simps server_defs int_defs str_defs weight_def send_result_cases
        new_Instruction_def instr_def db2_def compare12_def outcome_def)

text \<open>
  Claim C2, amended. In a running session in which the store answers and \<^verbatim>\<open>send\<close>
  returns, let the frame read be a COMPARE instruction (code 3) whose ids coerce to
  integers and match two rows, with order ciphertexts that are strings of decimal digits
  of the same length and denote different numbers. Then the winner is the id of the row
  whose order ciphertext is the larger number, the server writes the result of code
  \<^verbatim>\<open>'0'\<close> with the data \<^verbatim>\<open>Id {winner} has a higher salary\<close>, and the loop goes on.
\<close>

theorem C2_compare:
  assumes "instruction self \<noteq> Some 0" and "result_data self = []"
      and "frame rd = Doc d" and "send_ok rd" and "store_up rd"
      and "andthen (getitem d ''instruction'') py_int = Inr 3"
      and "getitem d ''data'' = Inr x"
      and "andthen (getitem x ''id_1'') py_int = Inr a"
      and "andthen (getitem x ''id_2'') py_int = Inr b"
      and "filter (\<lambda>r. emp_id r = a \<or> emp_id r = b) (employees db) = [r1, r2]"
      and "\<forall>c\<in>set (ope_salary r1). is_digit c" and "\<forall>c\<in>set (ope_salary r2). is_digit c"
      and "length (ope_salary r1) = length (ope_salary r2)"
      and "int_of_str (ope_salary r1) = Inr v1" and "int_of_str (ope_salary r2) = Inr v2"
      and "v1 \<noteq> v2"
  shows "outcome (server_loop key self db (rd # rds))
         = after [Sent (JObj [(''result'', JStr ''0''),
                              (''data'', JStr (''Id '' @ str_int (emp_id (if v1 < v2 then r2 else r1))
                                               @ '' has a higher salary''))])]
             (outcome (server_loop key new_Instruction db rds))"
proof -
  have v: "v1 = int (decimal (ope_salary r1))" "v2 = int (decimal (ope_salary r2))"
    using int_of_str_decimal assms(11,12,14,15) by blast+
  have "text_less (ope_salary r1) (ope_salary r2) \<longleftrightarrow> v1 < v2"
    using text_less_decimal[OF assms(13,11,12)] v by simp
  then have top: "select_top_id db a b = Some (emp_id (if v1 < v2 then r2 else r1))"
    using assms(10) by (simp add: select_top_id_def)
  have "server_iteration key self db rd
        = ([Sent (JObj [(''result'', JStr ''0''),
                        (''data'', JStr (''Id '' @ str_int (emp_id (if v1 < v2 then r2 else r1))
                                         @ '' has a higher salary''))])],
           Inr True,
           self\<lparr>instruction := Some 3, instruction_data := d, result_data := []\<rparr>, db)"
    using assms(2-9) top
    by (simp add: server_iteration_def server_read_instruction_def server_execute_instruction_def
          server_dispatch_def server_compare_employees_def set_result_def send_result_cases)
  from server_loop_continues[OF assms(1) this] show ?thesis by simp
qed

text \<open>The ids 1 and 2 on the store of two rows.\<close>

theorem C2_compare_witness:
  "instruction new_Instruction \<noteq> Some 0 \<and> result_data new_Instruction = [] \<and>
   filter (\<lambda>r. emp_id r = 1 \<or> emp_id r = 2) (employees db2)
     = [\<lparr>emp_id = 1, phe_salary = ''16'', ope_salary = ''5''\<rparr>,
        \<lparr>emp_id = 2, phe_salary = ''31'', ope_salary = ''7''\<rparr>] \<and>
   list_all is_digit ''5'' \<and> list_all is_digit ''7'' \<and>
   int_of_str ''5'' = Inr 5 \<and> int_of_str ''7'' = Inr 7 \<and>
   outcome (server_loop key15 new_Instruction db2 [instr compare12])
     = ([Sent (JObj [(''result'', JStr ''0''), (''data'', JStr ''Id 2 has a higher salary'')])],
        Blocked, db2)"
proof -
  let ?x = "JObj [(''id_1'', JStr ''1''), (''id_2'', JStr ''2'')]"
  let ?r1 = "\<lparr>emp_id = 1, phe_salary = ''16'', ope_salary = ''5''\<rparr>"
  let ?r2 = "\<lparr>emp_id = 2, phe_salary = ''31'', ope_salary = ''7''\<rparr>"
  have a: "instruction new_Instruction \<noteq> Some 0" "result_data new_Instruction = []"
    by (simp_all add: new_Instruction_def)
  have f: "frame (instr compare12) = Doc compare12" "send_ok (instr compare12)"
          "store_up (instr compare12)"
    by (simp_all add: instr_def)
  have c: "andthen (getitem compare12 ''instruction'') py_int = Inr 3"
    by (simp add: compare12_def int_defs)
  have x: "getitem compare12 ''data'' = Inr ?x" by (simp add: compare12_def)
  have i: "andthen (getitem ?x ''id_1'') py_int = Inr 1" "andthen (getitem ?x ''id_2'') py_int = Inr 2"
    by (simp_all add: int_defs)
  have r: "filter (\<lambda>r. emp_id r = 1 \<or> emp_id r = 2) (employees db2) = [?r1, ?r2]"
    by (simp add: db2_def)
  have dg: "\<forall>c\<in>set (ope_salary ?r1). is_digit c" "\<forall>c\<in>set (ope_salary ?r2). is_digit c"
    by (simp_all add: is_digit_def)
  have ln: "length (ope_salary ?r1) = length (ope_salary ?r2)" by simp
  have v: "int_of_str (ope_salary ?r1) = Inr 5" "int_of_str (ope_salary ?r2) = Inr 7"
    by (simp_all add: int_defs)
  have ne: "(5::int) \<noteq> 7" by simp
  show ?thesis
    using C2_compare[OF a f c x i r dg ln v ne, of key15 "[]"] a r dg v
    by (simp add: after_def server_loop.simps outcome_def new_Instruction_def str_defs
          list_all_iff)
qed

section \<open>Result codes on the wire\<close>

text \<open>Every result the server prepares starts with the key \<^verbatim>\<open>'result'\<close> and a string.\<close>

lemmas client_defs = client_iteration_def client_read_instruction_def send_instruction_def
  client_add_employee_def client_two_ids_def send_frame_def set_data_def str_code_def input_def
  client_read_result_def show_result_def colored_def generate_def send_public_key_def
  paillier_encrypt_def obfuscate_def get_random_lt_n_def Let_def

lemma andthen_eq_Inr: "(andthen m f = Inr y) = (\<exists>x. m = Inr x \<and> f x = Inr y)"
  by (cases m) simp_all

lemma success_result:
  assumes "result_data self = []"
  shows "server_get_table self up db = Inr s \<Longrightarrow> \<exists>v. result_data s = [(''result'', JStr ''0''), (''data'', v)]"
    and "server_add_employee self up db = Inr (s, db') \<Longrightarrow>
           \<exists>v. result_data s = [(''result'', JStr ''0''), (''data'', v)]"
    and "server_compare_employees self up db = Inr s \<Longrightarrow>
           \<exists>v. result_data s = [(''result'', JStr ''0''), (''data'', v)]"
    and "server_get_salaries_sum self up db key sd = Inr s \<Longrightarrow>
           \<exists>v. result_data s = [(''result'', JStr ''0''), (''data'', v)]"
proof -
  show "server_get_table self up db = Inr s \<Longrightarrow> \<exists>v. result_data s = [(''result'', JStr ''0''), (''data'', v)]"
    using assms by (auto simp: server_get_table_def set_result_def split: if_splits)
  show "server_add_employee self up db = Inr (s, db') \<Longrightarrow>
           \<exists>v. result_data s = [(''result'', JStr ''0''), (''data'', v)]"
    using assms
    by (auto simp: server_add_employee_def set_result_def andthen_eq_Inr split: if_splits)
  show "server_compare_employees self up db = Inr s \<Longrightarrow>
           \<exists>v. result_data s = [(''result'', JStr ''0''), (''data'', v)]"
    using assms
    by (auto simp: server_compare_employees_def set_result_def andthen_eq_Inr
             split: if_splits option.splits)
  show "server_get_salaries_sum self up db key sd = Inr s \<Longrightarrow>
           \<exists>v. result_data s = [(''result'', JStr ''0''), (''data'', v)]"
  proof -
    assume a: "server_get_salaries_sum self up db key sd = Inr s"
    then obtain x id_1 id_2 where up: "up"
      and b: "(case select_phe db id_1 id_2 of
               [] \<Rightarrow> Inl IndexError
             | first # rest \<Rightarrow>
                 andthen (int_of_str first) (\<lambda>first_salary.
                   (case rest of
                      [] \<Rightarrow> Inl IndexError
                    | second # _ \<Rightarrow>
                        andthen (int_of_str second) (\<lambda>second_salary.
                        andthen (encrypted_sum_ciphertext (Key.phe_public_key key)
                                   first_salary second_salary sd) (\<lambda>c.
                          Inr (set_result (set_result self ''result'' (JStr ''0'')) ''data''
                                 (JInt c))))))) = Inr s"
      by (auto simp: server_get_salaries_sum_def andthen_eq_Inr split: if_splits)
    show ?thesis
    proof (cases "select_phe db id_1 id_2")
      case Nil
      with b show ?thesis by simp
    next
      case (Cons f rest)
      show ?thesis
      proof (cases rest)
        case Nil
        with Cons b show ?thesis by (simp add: andthen_eq_Inr)
      next
        case (Cons g more)
        with \<open>select_phe db id_1 id_2 = f # rest\<close> b assms show ?thesis
          by (auto simp: andthen_eq_Inr set_result_def)
      qed
    qed
  qed
qed

lemma dispatch_code:
  "andthen (getitem (instruction_data self) ''instruction'') py_int = Inr code \<Longrightarrow>
   server_dispatch self up db key sd =
     (if code = 0 then Inr (server_quit (self\<lparr>instruction := Some code\<rparr>), db)
      else if code = 1
        then andthen (server_get_table (self\<lparr>instruction := Some code\<rparr>) up db) (\<lambda>s. Inr (s, db))
      else if code = 2 then server_add_employee (self\<lparr>instruction := Some code\<rparr>) up db
      else if code = 3
        then andthen (server_compare_employees (self\<lparr>instruction := Some code\<rparr>) up db)
               (\<lambda>s. Inr (s, db))
      else if code = 4
        then andthen (server_get_salaries_sum (self\<lparr>instruction := Some code\<rparr>) up db key sd)
               (\<lambda>s. Inr (s, db))
      else Inr (wrong_instruction_value (self\<lparr>instruction := Some code\<rparr>), db))"
  by (simp add: server_dispatch_def Let_def)

lemma dispatch_result:
  assumes "result_data self = []" and "server_dispatch self up db key sd = Inr (s, db')"
  shows "\<exists>c v. (c = ''0'' \<or> c = ''21'') \<and> result_data s = [(''result'', JStr c), (''data'', v)]"
proof -
  from assms(2) obtain code where
    c: "andthen (getitem (instruction_data self) ''instruction'') py_int = Inr code"
    by (cases "andthen (getitem (instruction_data self) ''instruction'') py_int")
       (simp_all add: server_dispatch_def)
  let ?s = "self\<lparr>instruction := Some code\<rparr>"
  have e: "result_data ?s = []" using assms(1) by simp
  note d = assms(2)[unfolded dispatch_code[OF c]]
  consider "code = 0" | "code = 1" | "code = 2" | "code = 3" | "code = 4"
    | "code \<noteq> 0" "code \<noteq> 1" "code \<noteq> 2" "code \<noteq> 3" "code \<noteq> 4" by blast
  then show ?thesis
  proof cases
    case 1
    with d have "s = server_quit ?s" by simp
    with e show ?thesis by (simp add: server_quit_def set_result_def)
  next
    case 2
    with d have "server_get_table ?s up db = Inr s" by (auto simp: andthen_eq_Inr)
    from success_result(1)[OF e this] obtain v where
      "result_data s = [(''result'', JStr ''0''), (''data'', v)]" ..
    then show ?thesis by simp
  next
    case 3
    with d have "server_add_employee ?s up db = Inr (s, db')" by simp
    from success_result(2)[OF e this] obtain v where
      "result_data s = [(''result'', JStr ''0''), (''data'', v)]" ..
    then show ?thesis by simp
  next
    case 4
    with d have "server_compare_employees ?s up db = Inr s" by (auto simp: andthen_eq_Inr)
    from success_result(3)[OF e this] obtain v where
      "result_data s = [(''result'', JStr ''0''), (''data'', v)]" ..
    then show ?thesis by simp
  next
    case 5
    with d have "server_get_salaries_sum ?s up db key sd = Inr s" by (auto simp: andthen_eq_Inr)
    from success_result(4)[OF e this] obtain v where
      "result_data s = [(''result'', JStr ''0''), (''data'', v)]" ..
    then show ?thesis by simp
  next
    case 6
    with d have "s = wrong_instruction_value ?s" by simp
    with e show ?thesis by (simp add: wrong_instruction_value_def set_result_def)
  qed
qed

lemma result_codes_mem:
  "''0'' \<in> result_codes" "''1'' \<in> result_codes" "''2'' \<in> result_codes"
  "''3'' \<in> result_codes" "''21'' \<in> result_codes"
  by (simp_all add: result_codes_def)

lemma pending_result:
  assumes "result_data self = []" and "pending key self db rd = (s, db')"
  shows "\<exists>c rest. c \<in> result_codes \<and> result_data s = (''result'', JStr c) # rest"
proof (cases "frame rd")
  case (Doc d)
  show ?thesis
  proof (cases "server_dispatch (self\<lparr>instruction_data := d\<rparr>) (store_up rd) db key (seed rd)")
    case (Inl e)
    with Doc assms have "result_data s = [(''result'', JStr ''2'')]"
      by (auto simp: pending_def server_read_instruction_def server_execute_instruction_def
            set_result_def)
    with result_codes_mem(3) show ?thesis by fast
  next
    case (Inr r)
    obtain s2 db2 where r: "r = (s2, db2)" by (cases r)
    have "result_data (self\<lparr>instruction_data := d\<rparr>) = []" using assms(1) by simp
    from dispatch_result[OF this Inr[unfolded r]] obtain c v where
      c: "c = ''0'' \<or> c = ''21''" "result_data s2 = [(''result'', JStr c), (''data'', v)]"
      by fast
    from c(1) result_codes_mem have m: "c \<in> result_codes" by fast
    from Doc Inr r assms(2) have "s = s2"
      by (simp add: pending_def server_read_instruction_def server_execute_instruction_def)
    with c(2) m show ?thesis by fast
  qed
next
  case RecvRaises
  with assms have "result_data s = [(''result'', JStr ''1'')]"
    by (auto simp: pending_def server_read_instruction_def set_result_def)
  with result_codes_mem(2) show ?thesis by fast
next
  case NotJson
  with assms have "result_data s = [(''result'', JStr ''1'')]"
    by (auto simp: pending_def server_read_instruction_def set_result_def)
  with result_codes_mem(2) show ?thesis by fast
qed

lemma server_iteration_frames:
  assumes "result_data self = []" and "server_iteration key self db rd = (evs, res, self', db')"
  shows "result_data self' = [] \<and>
         (\<forall>f. Sent f \<in> set evs \<longrightarrow>
            (\<exists>c rest. c \<in> result_codes \<and> f = JObj ((''result'', JStr c) # rest)))"
proof -
  obtain s db2 where p: "pending key self db rd = (s, db2)" by (cases "pending key self db rd")
  from pending_result[OF assms(1) p] obtain c rest where
    c: "c \<in> result_codes" "result_data s = (''result'', JStr c) # rest" by fast
  have three: "\<exists>c rest. c \<in> result_codes \<and>
                 JObj [(''result'', JStr ''3'')] = JObj ((''result'', JStr c) # rest)"
    using result_codes_mem(4) by fast
  have real: "\<exists>c rest. c \<in> result_codes \<and>
                 JObj (result_data s) = JObj ((''result'', JStr c) # rest)"
    using c by fast
  from assms(2) p have it:
    "(evs, res, self', db') =
       (case send_result s (send_ok rd) (retry_ok rd) of (evs, s', res) \<Rightarrow> (evs, res, s', db2))"
    by (simp add: server_iteration_pending)
  show ?thesis
  proof (cases "send_ok rd")
    case True
    with it have "evs = [Sent (JObj (result_data s))]" "result_data self' = []"
      by (simp_all add: send_result_cases)
    with real show ?thesis by simp
  next
    case False
    show ?thesis
    proof (cases "retry_ok rd")
      case True
      with False it have
        "evs = [SendRaised (JObj (result_data s)), Sent (JObj [(''result'', JStr ''3'')])]"
        "result_data self' = []"
        by (simp_all add: send_result_cases)
      with three show ?thesis by simp
    next
      case f2: False
      with False it have
        "evs = [SendRaised (JObj (result_data s)), SendRaised (JObj [(''result'', JStr ''3'')])]"
        "result_data self' = []"
        by (simp_all add: send_result_cases)
      then show ?thesis by simp
    qed
  qed
qed

lemma server_loop_frames:
  "result_data self = [] \<Longrightarrow> Sent f \<in> set (fst (server_loop key self db rds)) \<Longrightarrow>
   \<exists>c rest. c \<in> result_codes \<and> f = JObj ((''result'', JStr c) # rest)"
proof (induction rds arbitrary: self db)
  case Nil
  then show ?case by (simp add: server_loop.simps)
next
  case (Cons rd rds)
  show ?case
  proof (cases "instruction self = Some 0")
    case True
    with Cons.prems show ?thesis by (simp add: server_loop.simps)
  next
    case False
    obtain evs res s' db' where it: "server_iteration key self db rd = (evs, res, s', db')"
      by (cases "server_iteration key self db rd") auto
    from server_iteration_frames[OF Cons.prems(1) it]
    have e: "result_data s' = []"
      and fr: "\<And>g. Sent g \<in> set evs \<Longrightarrow>
                 \<exists>c rest. c \<in> result_codes \<and> g = JObj ((''result'', JStr c) # rest)"
      by blast+
    show ?thesis
    proof (cases res)
      case (Inl x)
      with False it Cons.prems(2) fr show ?thesis by (simp add: server_loop.simps)
    next
      case (Inr b)
      with False it Cons.prems(2)
      have "Sent f \<in> set evs \<or> Sent f \<in> set (fst (server_loop key s' db' rds))"
        by (auto simp: server_loop.simps split: prod.splits)
      with fr Cons.IH[OF e] show ?thesis by blast
    qed
  qed
qed

text \<open>The theorems on single iterations assume a running session: the last code was not
  0 and \<^verbatim>\<open>result_data\<close> is empty. Every state in which the server waits for the next
  frame is of that kind, and the session goes on from it with whatever input follows.\<close>

lemma server_loop_resumes:
  "result_data self = [] \<Longrightarrow> server_loop key self db pre = (evs, Blocked, self', db') \<Longrightarrow>
   instruction self' \<noteq> Some 0 \<and> result_data self' = [] \<and>
   server_loop key self db (pre @ rds)
   = (case server_loop key self' db' rds of (evs', rest) \<Rightarrow> (evs @ evs', rest))"
proof (induction pre arbitrary: self db evs)
  case Nil
  then show ?case by (auto simp: server_loop.simps split: if_splits prod.splits)
next
  case (Cons rd pre)
  from Cons.prems(2) have run: "instruction self \<noteq> Some 0"
    by (auto simp: server_loop.simps split: if_splits)
  obtain e res s1 db1 where it: "server_iteration key self db rd = (e, res, s1, db1)"
    by (cases "server_iteration key self db rd") auto
  from server_iteration_frames[OF Cons.prems(1) it] have e1: "result_data s1 = []" by simp
  show ?case
  proof (cases res)
    case (Inl x)
    with run it Cons.prems(2) show ?thesis by (simp add: server_loop.simps)
  next
    case (Inr b)
    obtain e2 st s2 db2 where l: "server_loop key s1 db1 pre = (e2, st, s2, db2)"
      by (cases "server_loop key s1 db1 pre") auto
    with run it Inr Cons.prems(2) have
      "st = Blocked" "s2 = self'" "db2 = db'" "evs = e @ e2"
      by (simp_all add: server_loop.simps)
    with l have l': "server_loop key s1 db1 pre = (e2, Blocked, self', db')" by simp
    from Cons.IH[OF e1 l'] have
      "instruction self' \<noteq> Some 0 \<and> result_data self' = [] \<and>
       server_loop key s1 db1 (pre @ rds)
       = (case server_loop key self' db' rds of (evs', rest) \<Rightarrow> (e2 @ evs', rest))" .
    with run it Inr \<open>evs = e @ e2\<close> show ?thesis
      by (simp add: server_loop.simps split: prod.splits)
  qed
qed

lemma read_result_of_string_code:
  "client_read_result self keys (Doc (JObj ((''result'', JStr c) # rest)))
   = ([LogError (''unknown result code: '' @ c)], self\<lparr>result_data := []\<rparr>, Inr True)"
  by (simp add: client_read_result_def show_result_def)

text \<open>
  Claim C9. Every frame the server delivers in a session is a mapping whose field
  \<^verbatim>\<open>result\<close> is one of the strings \<^verbatim>\<open>'0'\<close>, \<^verbatim>\<open>'1'\<close>, \<^verbatim>\<open>'2'\<close>, \<^verbatim>\<open>'3'\<close>, \<^verbatim>\<open>'21'\<close>.
  The client's \<^verbatim>\<open>match\<close> compares it with integers, which no string equals: whatever
  the instruction and the keys, \<^verbatim>\<open>read_result\<close> on such a frame takes the default case,
  logs \<^verbatim>\<open>unknown result code\<close> with the code, prints nothing and returns \<^verbatim>\<open>True\<close>.
\<close>

theorem C9_result_code_is_a_string:
  assumes "Sent f \<in> set (fst (server_app announcement db rounds))"
  shows "\<exists>c. c \<in> result_codes \<and> getitem f ''result'' = Inr (JStr c) \<and>
             client_read_result self keys (Doc f)
             = ([LogError (''unknown result code: '' @ c)], self\<lparr>result_data := []\<rparr>, Inr True)"
proof -
  have "result_data new_Instruction = []" by (simp add: new_Instruction_def)
  from server_loop_frames[OF this] assms
  obtain c rest where "c \<in> result_codes" "f = JObj ((''result'', JStr c) # rest)"
    unfolding server_app_def Let_def by blast
  then show ?thesis using read_result_of_string_code by auto
qed


text \<open>The result of a request for the table list, read by the client.\<close>

theorem C9_result_code_is_a_string_witness:
  "Sent tables_result \<in> set (fst (server_app (Doc (JObj [(''n'', JInt 15)])) db0 [instr list_frame])) \<and>
   client_read_result new_Instruction keys_demo (Doc tables_result)
     = ([LogError ''unknown result code: 0''], new_Instruction, Inr True)"
proof -
  have m: "Sent tables_result
           \<in> set (fst (server_app (Doc (JObj [(''n'', JInt 15)])) db0 [instr list_frame]))"
    by (simp add: server_app_def read_paillier_public_key_def rebuild_pailler_public_key_def
          connect_to_db_def server_loop.simps server_defs int_defs send_result_cases
          new_Instruction_def instr_def db0_def list_frame_def tables_result_def)
  from C9_result_code_is_a_string[OF m, of new_Instruction keys_demo] obtain c where
    "getitem tables_result ''result'' = Inr (JStr c)"
    "client_read_result new_Instruction keys_demo (Doc tables_result)
       = ([LogError (''unknown result code: '' @ c)], new_Instruction\<lparr>result_data := []\<rparr>, Inr True)"
    by fast
  with m show ?thesis by (simp add: tables_result_def new_Instruction_def)
qed

section \<open>What the client writes\<close>

lemma written_simps [simp]:
  "written [] = {}" "written (Sent f # evs) = insert f (written evs)"
  "written (SendRaised f # evs) = insert f (written evs)"
  "written (Connect # evs) = written evs" "written (Close # evs) = written evs"
  "written (Print s # evs) = written evs" "written (LogError s # evs) = written evs"
  "written (xs @ ys) = written xs \<union> written ys"
  by (auto simp: written_def)

lemma read_result_writes_nothing:
  "client_read_result self keys received = (evs, self', res) \<Longrightarrow> written evs = {}"
  by (auto simp: client_read_result_def show_result_def andthen_eq_Inr Let_def
           split: incoming.splits sum.splits json.splits if_splits option.splits prod.splits)


lemma send_frame_written: "send_frame s ok = (evs, r) \<Longrightarrow> written evs = {instruction_data s}"
  by (auto simp: send_frame_def split: if_splits)

lemma two_ids_written:
  assumes "client_two_ids s ok rest = (evs, r)"
      and "instruction_data s = JObj [(''instruction'', JStr c)]" and "f \<in> written evs"
  shows "\<exists>id_1 id_2 more. rest = id_1 # id_2 # more \<and>
           f = JObj [(''instruction'', JStr c),
                     (''data'', JObj [(''id_1'', JStr id_1), (''id_2'', JStr id_2)])]"
proof (cases rest)
  case Nil
  with assms show ?thesis by (simp add: client_two_ids_def input_def)
next
  case (Cons id_1 rest')
  show ?thesis
  proof (cases rest')
    case Nil
    with Cons assms show ?thesis by (simp add: client_two_ids_def input_def)
  next
    case (Cons id_2 more)
    with \<open>rest = id_1 # rest'\<close> assms(1,2)
    have "send_frame (s\<lparr>instruction_data :=
             JObj [(''instruction'', JStr c),
                   (''data'', JObj [(''id_1'', JStr id_1), (''id_2'', JStr id_2)])]\<rparr>) ok = (evs, r)"
      by (simp add: client_two_ids_def input_def set_data_def)
    from send_frame_written[OF this] assms(3) Cons \<open>rest = id_1 # rest'\<close>
    show ?thesis by simp
  qed
qed

lemma add_employee_written:
  assumes "client_add_employee s ok keys rest dr = (evs, r)"
      and "instruction_data s = JObj [(''instruction'', JStr c)]" and "f \<in> written evs"
  shows "\<exists>line more salary n ope pc oc.
           rest = line # more \<and> int_of_str line = Inr salary \<and>
           Keys.phe_public_key keys = Some n \<and> ope_key keys = Some ope \<and>
           paillier_encrypt n salary dr = Inr pc \<and> ope salary = Inr oc \<and>
           f = JObj [(''instruction'', JStr c),
                     (''data'', JObj [(''paillier_salary'', JInt pc), (''ope_salary'', JInt oc)])]"
proof (cases rest)
  case Nil
  with assms show ?thesis by (simp add: client_add_employee_def input_def)
next
  case (Cons line more)
  show ?thesis
  proof (cases "int_of_str line")
    case (Inl e)
    with Cons assms show ?thesis by (simp add: client_add_employee_def input_def)
  next
    case (Inr salary)
    show ?thesis
    proof (cases "Keys.phe_public_key keys")
      case None
      with Inr Cons assms show ?thesis by (simp add: client_add_employee_def input_def)
    next
      case (Some n)
      show ?thesis
      proof (cases "paillier_encrypt n salary dr")
        case (Inl e)
        with Some Inr Cons assms show ?thesis by (simp add: client_add_employee_def input_def)
      next
        case pc: (Inr pc)
        show ?thesis
        proof (cases "ope_key keys")
          case None
          with pc Some Inr Cons assms show ?thesis by (simp add: client_add_employee_def input_def)
        next
          case ope: (Some ope)
          show ?thesis
          proof (cases "ope salary")
            case (Inl e)
            with ope pc Some Inr Cons assms show ?thesis
              by (simp add: client_add_employee_def input_def)
          next
            case oc: (Inr oc)
            with ope pc Some Inr Cons assms(1,2)
            have "send_frame (s\<lparr>instruction_data :=
                    JObj [(''instruction'', JStr c),
                          (''data'', JObj [(''paillier_salary'', JInt pc),
                                           (''ope_salary'', JInt oc)])]\<rparr>) ok = (evs, r)"
              by (simp add: client_add_employee_def input_def set_data_def)
            from send_frame_written[OF this] assms(3) oc ope pc Some Inr Cons
            show ?thesis by simp
          qed
        qed
      qed
    qed
  qed
qed

lemma send_instruction_frames:
  assumes "instruction_data self = JObj []" and "instruction self = Some i"
      and "send_instruction self ok keys rest dr = (evs, b, self')"
  shows "instruction_data self' = JObj [] \<and> (\<forall>f\<in>written evs. frame_for keys i rest dr f)"
proof -
  let ?s = "self\<lparr>instruction_data := JObj [(''instruction'', JStr (str_int i))]\<rparr>"
  have s: "set_data self ''instruction'' (JStr (str_code (Some i))) = ?s"
    using assms(1) by (simp add: set_data_def str_code_def)
  have d: "instruction_data ?s = JObj [(''instruction'', JStr (str_int i))]" by simp
  have two: "str_int 2 = ''2''" by (simp add: str_defs)
  note u = assms(3)[unfolded send_instruction_def Let_def assms(2) s]
  consider "i = 0 \<or> i = 1" | "i = 2" | "i = 3 \<or> i = 4"
    | "i \<noteq> 0" "i \<noteq> 1" "i \<noteq> 2" "i \<noteq> 3" "i \<noteq> 4" by fast
  then show ?thesis
  proof cases
    case 1
    obtain e r where sf: "send_frame ?s ok = (e, r)" by (cases "send_frame ?s ok")
    from 1 u sf have "evs = e" "instruction_data self' = JObj []"
      by (auto split: sum.splits)
    with send_frame_written[OF sf] 1 show ?thesis by (auto simp: frame_for_def)
  next
    case 2
    obtain e r where sf: "client_add_employee ?s ok keys rest dr = (e, r)"
      by (cases "client_add_employee ?s ok keys rest dr")
    from 2 u sf have "evs = e" "instruction_data self' = JObj []"
      by (auto split: sum.splits)
    with add_employee_written[OF sf d] 2 two show ?thesis by (simp add: frame_for_def)
  next
    case 3
    obtain e r where sf: "client_two_ids ?s ok rest = (e, r)"
      by (cases "client_two_ids ?s ok rest")
    from 3 u sf have "evs = e" "instruction_data self' = JObj []"
      by (auto split: sum.splits)
    with two_ids_written[OF sf d] 3 show ?thesis by (auto simp: frame_for_def)
  next
    case 4
    with u show ?thesis by auto
  qed
qed

lemma client_iteration_frames:
  assumes "instruction_data self = JObj []" and "client_iteration keys self rd = (evs, res, self')"
  shows "instruction_data self' = JObj [] \<and> (\<forall>f\<in>written evs. instruction_frame keys rd f)"
proof (cases "typed rd")
  case Nil
  with assms show ?thesis
    by (simp add: client_iteration_def client_read_instruction_def input_def)
next
  case (Cons code rest)
  show ?thesis
  proof (cases "int_of_str code")
    case (Inl e)
    with Cons assms show ?thesis
      by (auto simp: client_iteration_def client_read_instruction_def input_def)
  next
    case (Inr i)
    let ?s = "self\<lparr>instruction := Some i\<rparr>"
    obtain e b s2 where si: "send_instruction ?s (sent_ok rd) keys rest (draw rd) = (e, b, s2)"
      by (cases "send_instruction ?s (sent_ok rd) keys rest (draw rd)") auto
    have "instruction_data ?s = JObj []" "instruction ?s = Some i" using assms(1) by simp_all
    from send_instruction_frames[OF this si]
    have d2: "instruction_data s2 = JObj []" and fr: "\<forall>f\<in>written e. frame_for keys i rest (draw rd) f"
      by simp_all
    from fr Cons Inr have fr': "\<forall>f\<in>written e. instruction_frame keys rd f"
      by (auto simp: instruction_frame_def)
    show ?thesis
    proof (cases b)
      case False
      with Cons Inr si assms(2) have "evs = e @ [LogError ''failed to send instruction'']" "self' = s2"
        by (simp_all add: client_iteration_def client_read_instruction_def input_def)
      with d2 fr' show ?thesis by simp
    next
      case True
      obtain e2 s3 r where rr: "client_read_result s2 keys (reply rd) = (e2, s3, r)"
        by (cases "client_read_result s2 keys (reply rd)") auto
      have w: "written e2 = {}" using rr by (rule read_result_writes_nothing)
      have d3: "instruction_data s3 = instruction_data s2"
        using rr by (auto simp: client_read_result_def Let_def
                          split: incoming.splits json.splits prod.splits)
      from True Cons Inr si rr assms(2)
      have "written evs = written e \<union> written e2" "self' = s3"
        by (auto simp: client_iteration_def client_read_instruction_def input_def
                 split: sum.splits bool.splits)
      with w d2 d3 fr' show ?thesis by simp
    qed
  qed
qed

lemma client_loop_frames:
  "instruction_data self = JObj [] \<Longrightarrow> f \<in> written (fst (client_loop keys self rds)) \<Longrightarrow>
   \<exists>rd\<in>set rds. instruction_frame keys rd f"
proof (induction rds arbitrary: self)
  case Nil
  then show ?case by (simp add: client_loop.simps)
next
  case (Cons rd rds)
  show ?case
  proof (cases "instruction self = Some 0")
    case True
    with Cons.prems show ?thesis by (simp add: client_loop.simps)
  next
    case False
    obtain evs res s' where it: "client_iteration keys self rd = (evs, res, s')"
      by (cases "client_iteration keys self rd") auto
    from client_iteration_frames[OF Cons.prems(1) it]
    have d: "instruction_data s' = JObj []" and fr: "\<forall>g\<in>written evs. instruction_frame keys rd g"
      by simp_all
    from False it Cons.prems(2)
    have "f \<in> written evs \<or> f \<in> written (fst (client_loop keys s' rds))"
      by (auto simp: client_loop.simps split: sum.splits prod.splits)
    with fr Cons.IH[OF d] show ?thesis by auto
  qed
qed

text \<open>
  Claim C3. Every frame the client hands to \<^verbatim>\<open>send\<close> in a session is either the
  announcement of the public modulus, or the frame of one iteration: the code alone, the
  code with the two lines typed as ids, or, when the operator typed the code 2 and a
  salary, the code with the Paillier ciphertext and the order-preserving ciphertext of
  that salary under the keys of the session, and nothing else. The salary typed enters the
  frame through the two encryptions only.
\<close>

theorem C3_only_ciphertexts_on_the_wire:
  assumes "f \<in> written (fst (client_app paillier_keypair ope announce_ok rounds))"
  shows "(\<exists>p q. paillier_keypair = Some (p, q) \<and> f = JObj [(''n'', JInt (p * q))])
         \<or> (\<exists>rd\<in>set rounds. instruction_frame (snd (generate paillier_keypair ope)) rd f)"
proof -
  obtain g keys where g: "generate paillier_keypair ope = (g, keys)"
    by (cases "generate paillier_keypair ope")
  obtain evs st where l: "client_loop keys new_Instruction rounds = (evs, st)"
    by (cases "client_loop keys new_Instruction rounds")
  have wg: "written g = {}" using g by (auto simp: generate_def split: option.splits)
  have wa: "written (send_public_key keys announce_ok)
            \<subseteq> {f. \<exists>p q. paillier_keypair = Some (p, q) \<and> f = JObj [(''n'', JInt (p * q))]}"
    using g by (auto simp: generate_def send_public_key_def split: option.splits)
  from assms g l have "f \<in> written (send_public_key keys announce_ok) \<or> f \<in> written evs"
    using wg by (auto simp: client_app_def split: if_splits)
  moreover have "instruction_data new_Instruction = JObj []" by (simp add: new_Instruction_def)
  from client_loop_frames[OF this, of f keys rounds] l
  have "f \<in> written evs \<Longrightarrow> \<exists>rd\<in>set rounds. instruction_frame keys rd f" by simp
  ultimately show ?thesis using wa g by auto
qed

text \<open>The salary 5000 under the keys of the example.\<close>

theorem C3_only_ciphertexts_on_the_wire_witness:
  "add5000 \<in> written (fst (client_app (Some (191, 193)) (Some ope0) True
                              [operator [''2'', ''5000''] ok_result])) \<and>
   instruction_frame keys_demo (operator [''2'', ''5000''] ok_result) add5000"
proof -
  have m: "add5000 \<in> written (fst (client_app (Some (191, 193)) (Some ope0) True
                              [operator [''2'', ''5000''] ok_result]))"
    by (simp add: client_app_def client_loop.simps client_defs int_defs str_defs ope0_def
          new_Instruction_def operator_def add5000_def ok_result_def)
  have g: "snd (generate (Some (191, 193)) (Some ope0)) = keys_demo"
    by (simp add: generate_def keys_demo_def)
  have n: "\<not> (\<exists>p q. Some (191::int, 193::int) = Some (p, q) \<and> add5000 = JObj [(''n'', JInt (p * q))])"
    by (simp add: add5000_def)
  from C3_only_ciphertexts_on_the_wire[OF m] n g m show ?thesis by simp
qed

section \<open>Key failures at session setup\<close>

text \<open>
  Claim C5, as stated, fails. A client whose key generation raises has connected before,
  logs the failure, and goes on to the loop: it sends the request the operator types. A
  server that receives an announcement without a modulus, or with a modulus that is no
  number, logs the failure and serves the requests that follow.
\<close>

theorem C5_counterexample:
  "client_app None None True [operator [''1''] tables_result]
   = ([Connect, LogError ''keys generation failed!'',
       LogError ''failed to send paillier public key!'',
       Sent list_frame, LogError ''unknown result code: 0''], Blocked) \<and>
   fst (outcome (server_app (Doc (JObj [])) db0 [instr list_frame])) = [Sent tables_result] \<and>
   fst (outcome (server_app (Doc (JObj [(''n'', JStr ''abc'')])) db0 [instr list_frame]))
   = [Sent tables_result]"
proof -
  have c: "client_app None None True [operator [''1''] tables_result]
   = ([Connect, LogError ''keys generation failed!'',
       LogError ''failed to send paillier public key!'',
       Sent list_frame, LogError ''unknown result code: 0''], Blocked)"
    by (simp add: client_app_def client_loop.simps client_defs int_defs str_defs
          new_Instruction_def operator_def list_frame_def tables_result_def)
  have s1: "fst (outcome (server_app (Doc (JObj [])) db0 [instr list_frame])) = [Sent tables_result]"
    by (simp add: server_app_def read_paillier_public_key_def rebuild_pailler_public_key_def
        connect_to_db_def server_loop.simps server_defs int_defs send_result_cases
        new_Instruction_def instr_def db0_def outcome_def list_frame_def tables_result_def)
  have s2: "fst (outcome (server_app (Doc (JObj [(''n'', JStr ''abc'')])) db0 [instr list_frame]))
            = [Sent tables_result]"
    by (simp add: server_app_def read_paillier_public_key_def rebuild_pailler_public_key_def
        connect_to_db_def server_loop.simps server_defs int_defs send_result_cases
        new_Instruction_def instr_def db0_def outcome_def list_frame_def tables_result_def)
  from c s1 s2 show ?thesis by simp
qed

text \<open>What a session without keys does: the server answers a SUM with the code
  \<^verbatim>\<open>'2'\<close>, and a client that lacks one of the two encryption keys sends nothing for
  an ADD.\<close>

lemma keyless_sum_raises:
  "\<exists>e. server_get_salaries_sum self up db no_key sd = Inl e"
proof (cases "server_get_salaries_sum self up db no_key sd")
  case (Inl e)
  then show ?thesis by simp
next
  case (Inr s)
  then obtain x id_1 id_2 where
    b: "(case select_phe db id_1 id_2 of
               [] \<Rightarrow> Inl IndexError
             | first # rest \<Rightarrow>
                 andthen (int_of_str first) (\<lambda>first_salary.
                   (case rest of
                      [] \<Rightarrow> Inl IndexError
                    | second # _ \<Rightarrow>
                        andthen (int_of_str second) (\<lambda>second_salary.
                        andthen (encrypted_sum_ciphertext (Key.phe_public_key no_key)
                                   first_salary second_salary sd) (\<lambda>c.
                          Inr (set_result (set_result self ''result'' (JStr ''0'')) ''data''
                                 (JInt c))))))) = Inr s"
    by (auto simp: server_get_salaries_sum_def andthen_eq_Inr split: if_splits)
  have False
  proof (cases "select_phe db id_1 id_2")
    case Nil
    with b show ?thesis by simp
  next
    case (Cons f rest)
    show ?thesis
    proof (cases rest)
      case Nil
      with Cons b show ?thesis by (simp add: andthen_eq_Inr)
    next
      case (Cons g more)
      with \<open>select_phe db id_1 id_2 = f # rest\<close> b show ?thesis
        by (auto simp: andthen_eq_Inr encrypted_sum_ciphertext_def no_key_def)
    qed
  qed
  then show ?thesis ..
qed

lemma add_needs_both_keys:
  assumes "Keys.phe_public_key keys = None \<or> ope_key keys = None"
      and "instruction_data self = JObj []" and "typed rd = line # rest"
      and "int_of_str line = Inr 2"
  shows "written (fst (client_iteration keys self rd)) = {}"
proof -
  obtain evs res s' where it: "client_iteration keys self rd = (evs, res, s')"
    by (cases "client_iteration keys self rd") auto
  from client_iteration_frames[OF assms(2) it]
  have "\<forall>f\<in>written evs. instruction_frame keys rd f" by simp
  moreover have "\<not> instruction_frame keys rd f" for f
    using assms(1,3,4) by (auto simp: instruction_frame_def frame_for_def)
  ultimately show ?thesis using it by auto
qed

text \<open>
  Claim C5, amended. Neither failure is fatal. When the announcement cannot be read or
  its modulus is absent or does not coerce to an integer, the server runs its loop on the
  whole input with no key; in that loop a SUM instruction is answered with the code
  \<^verbatim>\<open>'2'\<close> and the loop goes on. When the generation of keys raises, the client,
  connected already, logs the failure and runs its loop on the whole input with the keys
  it has: with none, and with no announcement, when the Paillier pair was not made; with
  the Paillier pair, whose modulus it announces as usual, when only the order-preserving
  key was not made. In a loop that lacks the public key or the order-preserving key an
  ADD writes no frame.
\<close>

theorem C5_key_failure_is_not_fatal:
  "(received = RecvRaises \<or> received = NotJson \<or>
      (\<exists>d e. received = Doc d \<and> andthen (getitem d ''n'') py_int = Inl e) \<longrightarrow>
      server_app received db rounds
      = server_loop no_key new_Instruction (connect_to_db db) rounds) \<and>
   (instruction self \<noteq> Some 0 \<and> result_data self = [] \<and> frame rd = Doc d \<and> send_ok rd \<and>
      andthen (getitem d ''instruction'') py_int = Inr 4 \<longrightarrow>
      outcome (server_loop no_key self db (rd # rds))
      = after [Sent (JObj [(''result'', JStr ''2'')])]
          (outcome (server_loop no_key new_Instruction db rds))) \<and>
   client_app None ope announce_ok typing
   = (Connect # LogError ''keys generation failed!''
        # LogError ''failed to send paillier public key!''
        # fst (client_loop no_keys new_Instruction typing)
        @ (if snd (client_loop no_keys new_Instruction typing) = Blocked then [] else [Close]),
      snd (client_loop no_keys new_Instruction typing)) \<and>
   client_app (Some (p, q)) None announce_ok typing
   = (Connect # LogError ''keys generation failed!''
        # (if announce_ok then [Sent (JObj [(''n'', JInt (p * q))])]
           else [SendRaised (JObj [(''n'', JInt (p * q))]),
                 LogError ''failed to send paillier public key!''])
        @ fst (client_loop (paillier_only p q) new_Instruction typing)
        @ (if snd (client_loop (paillier_only p q) new_Instruction typing) = Blocked
           then [] else [Close]),
      snd (client_loop (paillier_only p q) new_Instruction typing)) \<and>
   ((Keys.phe_public_key keys = None \<or> ope_key keys = None) \<and>
      instruction_data cself = JObj [] \<and> typed crd = line # rest \<and> int_of_str line = Inr 2 \<longrightarrow>
      written (fst (client_iteration keys cself crd)) = {})"
proof (intro conjI impI)
  assume "received = RecvRaises \<or> received = NotJson \<or>
      (\<exists>d e. received = Doc d \<and> andthen (getitem d ''n'') py_int = Inl e)"
  then show "server_app received db rounds
      = server_loop no_key new_Instruction (connect_to_db db) rounds"
    by (auto simp: server_app_def read_paillier_public_key_def rebuild_pailler_public_key_def
          no_key_def)
next
  assume a: "instruction self \<noteq> Some 0 \<and> result_data self = [] \<and> frame rd = Doc d \<and> send_ok rd \<and>
      andthen (getitem d ''instruction'') py_int = Inr 4"
  from keyless_sum_raises obtain e where
    "server_get_salaries_sum (self\<lparr>instruction_data := d, instruction := Some 4\<rparr>)
       (store_up rd) db no_key (seed rd) = Inl e" by fast
  with a have "server_dispatch (self\<lparr>instruction_data := d\<rparr>) (store_up rd) db no_key (seed rd) = Inl e"
    by (simp add: server_dispatch_def)
  with a failed_execution_iteration[of self rd d db no_key e]
  have "server_iteration no_key self db rd
        = ([Sent (JObj [(''result'', JStr ''2'')])], Inr True,
           self\<lparr>instruction := None, instruction_data := d, result_data := []\<rparr>, db)"
    by simp
  with a server_loop_continues[of self no_key db rd _ True _ db rds]
  show "outcome (server_loop no_key self db (rd # rds))
      = after [Sent (JObj [(''result'', JStr ''2'')])]
          (outcome (server_loop no_key new_Instruction db rds))"
    by simp
next
  show "client_app None ope announce_ok typing
   = (Connect # LogError ''keys generation failed!''
        # LogError ''failed to send paillier public key!''
        # fst (client_loop no_keys new_Instruction typing)
        @ (if snd (client_loop no_keys new_Instruction typing) = Blocked then [] else [Close]),
      snd (client_loop no_keys new_Instruction typing))"
    by (simp add: client_app_def generate_def send_public_key_def no_keys_def split: prod.splits)
next
  show "client_app (Some (p, q)) None announce_ok typing
   = (Connect # LogError ''keys generation failed!''
        # (if announce_ok then [Sent (JObj [(''n'', JInt (p * q))])]
           else [SendRaised (JObj [(''n'', JInt (p * q))]),
                 LogError ''failed to send paillier public key!''])
        @ fst (client_loop (paillier_only p q) new_Instruction typing)
        @ (if snd (client_loop (paillier_only p q) new_Instruction typing) = Blocked
           then [] else [Close]),
      snd (client_loop (paillier_only p q) new_Instruction typing))"
    by (simp add: client_app_def generate_def send_public_key_def paillier_only_def
          split: prod.splits)
next
  assume "(Keys.phe_public_key keys = None \<or> ope_key keys = None) \<and>
      instruction_data cself = JObj [] \<and> typed crd = line # rest \<and> int_of_str line = Inr 2"
  then show "written (fst (client_iteration keys cself crd)) = {}"
    using add_needs_both_keys by simp
qed

text \<open>An announcement without modulus, then a SUM and a request for the table list on the
  store of two rows; a client whose order-preserving key was not made; and an ADD typed
  into a client with the Paillier pair only, and into one without keys.\<close>

theorem C5_key_failure_is_not_fatal_witness:
  "andthen (getitem (JObj []) ''n'') py_int = Inl KeyError \<and>
   fst (outcome (server_app (Doc (JObj [])) db2 [instr sum12, instr list_frame]))
     = [Sent (JObj [(''result'', JStr ''2'')]), Sent tables_result] \<and>
   ope_key (paillier_only 191 193) = None \<and>
   client_app (Some (191, 193)) None True [operator [''2'', ''5000''] ok_result]
     = ([Connect, LogError ''keys generation failed!'', Sent (JObj [(''n'', JInt 36863)]),
         LogError ''failed to send instruction''], Blocked) \<and>
   written (fst (client_iteration (paillier_only 191 193) new_Instruction
                   (operator [''2'', ''5000''] ok_result))) = {} \<and>
   written (fst (client_iteration no_keys new_Instruction (operator [''2'', ''5000''] ok_result)))
     = {}"
proof -
  let ?rd = "operator [''2'', ''5000''] ok_result"
  have n: "andthen (getitem (JObj []) ''n'') py_int = Inl KeyError" by simp
  have r: "instruction new_Instruction \<noteq> Some 0 \<and> result_data new_Instruction = [] \<and>
           frame (instr sum12) = Doc sum12 \<and> send_ok (instr sum12) \<and>
           andthen (getitem sum12 ''instruction'') py_int = Inr 4"
    by (simp add: new_Instruction_def instr_def sum12_def int_defs)
  have c: "instruction_data new_Instruction = JObj [] \<and> typed ?rd = ''2'' # [''5000''] \<and>
           int_of_str ''2'' = Inr 2"
    by (simp add: new_Instruction_def operator_def int_defs)
  have k: "ope_key (paillier_only 191 193) = None" "Keys.phe_public_key no_keys = None"
    by (simp_all add: paillier_only_def no_keys_def)
  have l: "outcome (server_loop no_key new_Instruction db2 [instr list_frame])
           = ([Sent tables_result], Blocked, db2)"
    by (simp add: server_loop.simps server_defs int_defs send_result_cases new_Instruction_def
          instr_def db2_def outcome_def list_frame_def tables_result_def)
  have d: "connect_to_db db2 = db2" by (simp add: connect_to_db_def db2_def)
  have cl: "client_loop (paillier_only 191 193) new_Instruction [?rd]
            = ([LogError ''failed to send instruction''], Blocked)"
    by (simp add: client_loop.simps client_defs int_defs paillier_only_def new_Instruction_def
          operator_def)
  note t1 = C5_key_failure_is_not_fatal[of "Doc (JObj [])" db2 "[instr sum12, instr list_frame]"
         new_Instruction "instr sum12" sum12 "[instr list_frame]" None True "[?rd]" 191 193
         "paillier_only 191 193" new_Instruction ?rd "''2''" "[''5000'']"]
  note t2 = C5_key_failure_is_not_fatal[of "Doc (JObj [])" db2 "[instr sum12, instr list_frame]"
         new_Instruction "instr sum12" sum12 "[instr list_frame]" None True "[?rd]" 191 193
         no_keys new_Instruction ?rd "''2''" "[''5000'']"]
  from t1 t2 n r c k l d cl show ?thesis by (simp add: after_def outcome_def)
qed

section \<open>The sum, end to end\<close>

text \<open>The model of the Paillier operations at work, on the primes 3 and 5: the sum of the
  ciphertexts of 1 and 2 decrypts to 3.\<close>

lemma decrypting_the_sum:
  "paillier_encrypt 15 1 0 = Inr 16" "paillier_encrypt 15 2 0 = Inr 31"
  "encrypted_sum_ciphertext (Some 15) 16 31 0 = Inr 46"
  "paillier_decrypt (3, 5) 15 46 = Inr 3"
  by (simp_all add: paillier_encrypt_def encrypted_sum_ciphertext_def raw_add_def obfuscate_def
        get_random_lt_n_def paillier_decrypt_def raw_decrypt_def h_function_def l_function_def
        invert_def decode_def eval_nat_numeral)

text \<open>
  Claim C1 on the code. The operator adds the salaries 5000 and 7000 and asks for the sum
  of the ids 1 and 2. The server stores the two rows and returns the combined ciphertext
  442356001 with the result code \<^verbatim>\<open>'0'\<close>. The client logs
  \<^verbatim>\<open>unknown result code: 0\<close> after each of the three results: it never decrypts the
  ciphertext and prints nothing, where the claim has it display 12000.
\<close>

theorem C1_sum_is_not_displayed:
  "client_app (Some (191, 193)) (Some ope0) True
     [operator [''2'', ''5000''] ok_result, operator [''2'', ''7000''] ok_result,
      operator [''4'', ''1'', ''2''] sum_result]
   = ([Connect, Sent (JObj [(''n'', JInt 36863)]),
       Sent add5000, LogError ''unknown result code: 0'',
       Sent add7000, LogError ''unknown result code: 0'',
       Sent sum12, LogError ''unknown result code: 0''], Blocked) \<and>
   fst (outcome (server_app (Doc (JObj [(''n'', JInt 36863)])) db0
                   [instr add5000, instr add7000, instr sum12]))
   = [Sent ok_result, Sent ok_result, Sent sum_result]"
proof -
  have c: "client_app (Some (191, 193)) (Some ope0) True
     [operator [''2'', ''5000''] ok_result, operator [''2'', ''7000''] ok_result,
      operator [''4'', ''1'', ''2''] sum_result]
   = ([Connect, Sent (JObj [(''n'', JInt 36863)]),
       Sent add5000, LogError ''unknown result code: 0'',
       Sent add7000, LogError ''unknown result code: 0'',
       Sent sum12, LogError ''unknown result code: 0''], Blocked)"
    by (simp add: client_app_def client_loop.simps client_defs int_defs str_defs ope0_def
          new_Instruction_def operator_def add5000_def add7000_def sum12_def ok_result_def
          sum_result_def)
  have s: "fst (outcome (server_app (Doc (JObj [(''n'', JInt 36863)])) db0
                   [instr add5000, instr add7000, instr sum12]))
   = [Sent ok_result, Sent ok_result, Sent sum_result]"
    by (simp add: server_app_def read_paillier_public_key_def rebuild_pailler_public_key_def
        connect_to_db_def server_loop.simps server_defs int_defs str_defs send_result_cases
        encrypted_sum_ciphertext_def raw_add_def obfuscate_def get_random_lt_n_def
        new_Instruction_def instr_def db0_def outcome_def add5000_def add7000_def sum12_def
        ok_result_def sum_result_def)
  from c s show ?thesis by simp
qed

end
